theory Spec2Isabelle
  imports Main "HOL-Library.Sublist" "HOL-Library.Char_ord"
begin

section \<open>Bytes and strings\<close>

text \<open>
  A Go \<^verbatim>\<open>string\<close> and a Go \<^verbatim>\<open>[]byte\<close> are sequences of bytes. Both are modelled
  by HOL's \<^typ>\<open>string\<close>, a list of 8-bit characters; \<^term>\<open>of_char c\<close> is the
  numeric value of a byte and the order on \<^typ>\<open>char\<close> is the order of these values.
\<close>

abbreviation CR :: char where "CR \<equiv> CHR 0x0D"
abbreviation LF :: char where "LF \<equiv> CHR 0x0A"
abbreviation CRLF :: string where "CRLF \<equiv> [CR, LF]"
abbreviation DQ :: char where "DQ \<equiv> CHR 0x22"
abbreviation BSL :: char where "BSL \<equiv> CHR 0x5C"

subsection \<open>Functions of the Go standard library used by the encoder\<close>

text \<open>
  The encoder calls into \<^verbatim>\<open>strings\<close>, \<^verbatim>\<open>unicode/utf8\<close>, \<^verbatim>\<open>encoding/base64\<close>,
  \<^verbatim>\<open>strconv\<close> (through the \<^verbatim>\<open>%q\<close> verb), \<^verbatim>\<open>net/url\<close>, \<^verbatim>\<open>mime\<close> and
  \<^verbatim>\<open>path/filepath\<close>. These functions are modelled here from their behaviour in the
  Go distribution, each on the arguments the encoder passes.
\<close>

text \<open>\<^verbatim>\<open>strings.Join(xs, sep)\<close>.\<close>

fun Join :: "string list \<Rightarrow> string \<Rightarrow> string" where
  "Join [] sep = []"
| "Join [x] sep = x"
| "Join (x # y # ys) sep = x @ sep @ Join (y # ys) sep"

text \<open>
  \<^verbatim>\<open>strings.ReplaceAll(s, old, new)\<close>: the non-overlapping occurrences of \<open>old\<close> are
  replaced from left to right. Every call of the encoder has a non-empty \<open>old\<close>; the
  empty \<open>old\<close> (Go inserts \<open>new\<close> between runes) is outside this model and leaves \<open>s\<close>
  as it is.
\<close>

function ReplaceAll :: "string \<Rightarrow> string \<Rightarrow> string \<Rightarrow> string" where
  "ReplaceAll s old new =
     (if old = [] \<or> s = [] then s
      else if prefix old s then new @ ReplaceAll (drop (length old) s) old new
      else hd s # ReplaceAll (tl s) old new)"
  by pat_completeness auto
termination
  by (relation "measure (\<lambda>(s, old, new). length s)") auto

declare ReplaceAll.simps [simp del]

text \<open>
  \<^verbatim>\<open>utf8.DecodeRuneInString\<close>, the width it returns: the number of bytes of the
  well-formed UTF-8 sequence at the head of the string, and 1 for a byte that starts no
  well-formed sequence (Go then yields \<^verbatim>\<open>RuneError\<close> of width 1).
\<close>

definition cont :: "char \<Rightarrow> bool" where
  "cont c = (CHR 0x80 \<le> c \<and> c \<le> CHR 0xBF)"

fun runeLen :: "string \<Rightarrow> nat" where
  "runeLen [] = 0"
| "runeLen (c # cs) =
     (if c < CHR 0xC2 then 1
      else if c \<le> CHR 0xDF then
        (case cs of c1 # _ \<Rightarrow> if cont c1 then 2 else 1 | _ \<Rightarrow> 1)
      else if c \<le> CHR 0xEF then
        (case cs of
           c1 # c2 # _ \<Rightarrow>
             if (if c = CHR 0xE0 then CHR 0xA0 else CHR 0x80) \<le> c1
                \<and> c1 \<le> (if c = CHR 0xED then CHR 0x9F else CHR 0xBF) \<and> cont c2
             then 3 else 1
         | _ \<Rightarrow> 1)
      else if c \<le> CHR 0xF4 then
        (case cs of
           c1 # c2 # c3 # _ \<Rightarrow>
             if (if c = CHR 0xF0 then CHR 0x90 else CHR 0x80) \<le> c1
                \<and> c1 \<le> (if c = CHR 0xF4 then CHR 0x8F else CHR 0xBF) \<and> cont c2 \<and> cont c3
             then 4 else 1
         | _ \<Rightarrow> 1)
      else 1)"

text \<open>
  \<^verbatim>\<open>strings.TrimSpace\<close> removes leading and trailing white space as Unicode defines
  it (\<^verbatim>\<open>unicode.IsSpace\<close>): the six ASCII characters tab, LF, VT, FF, CR and space, and
  the code points U+0085, U+00A0, U+1680, U+2000 to U+200A, U+2028, U+2029, U+202F,
  U+205F and U+3000, which a Go string holds in UTF-8. A rune decoded at the head (or
  at the end) of a string is one of these exactly when the string starts (or ends) with
  its UTF-8 encoding.
\<close>

definition asciiSpace :: "char \<Rightarrow> bool" where
  "asciiSpace c = (c \<in> set [CHR 0x09, LF, CHR 0x0B, CHR 0x0C, CR, CHR 0x20])"

definition spaceRunes :: "string list" where
  "spaceRunes =
     [[CHR 0xC2, CHR 0x85], [CHR 0xC2, CHR 0xA0], [CHR 0xE1, CHR 0x9A, CHR 0x80]]
     @ map (\<lambda>c. [CHR 0xE2, CHR 0x80, c])
         [CHR 0x80, CHR 0x81, CHR 0x82, CHR 0x83, CHR 0x84, CHR 0x85, CHR 0x86, CHR 0x87,
          CHR 0x88, CHR 0x89, CHR 0x8A, CHR 0xA8, CHR 0xA9, CHR 0xAF]
     @ [[CHR 0xE2, CHR 0x81, CHR 0x9F], [CHR 0xE3, CHR 0x80, CHR 0x80]]"

definition leadingSpace :: "string \<Rightarrow> nat" where
  "leadingSpace s =
     (case s of
        [] \<Rightarrow> 0
      | c # _ \<Rightarrow>
          if asciiSpace c then 1
          else (case List.find (\<lambda>r. prefix r s) spaceRunes of
                  Some r \<Rightarrow> length r | None \<Rightarrow> 0))"

definition trailingSpace :: "string \<Rightarrow> nat" where
  "trailingSpace s =
     (if s = [] then 0
      else if asciiSpace (last s) then 1
      else (case List.find (\<lambda>r. suffix r s) spaceRunes of
              Some r \<Rightarrow> length r | None \<Rightarrow> 0))"

function TrimLeftSpace :: "string \<Rightarrow> string" where
  "TrimLeftSpace s =
     (if leadingSpace s = 0 then s else TrimLeftSpace (drop (leadingSpace s) s))"
  by pat_completeness auto
termination
  by (relation "measure length") (auto simp: leadingSpace_def split: list.splits)

declare TrimLeftSpace.simps [simp del]

function TrimRightSpace :: "string \<Rightarrow> string" where
  "TrimRightSpace s =
     (if trailingSpace s = 0 then s
      else TrimRightSpace (take (length s - trailingSpace s) s))"
  by pat_completeness auto
termination
  by (relation "measure length") (auto simp: trailingSpace_def split: if_splits)

declare TrimRightSpace.simps [simp del]

definition TrimSpace :: "string \<Rightarrow> string" where
  "TrimSpace s = TrimRightSpace (TrimLeftSpace s)"

text \<open>
  \<^verbatim>\<open>strings.Trim(s, cutset)\<close> for a cutset of ASCII characters,
  \<^verbatim>\<open>strings.LastIndex(s, c)\<close> for a one-byte needle (\<open>None\<close> is Go's \<open>-1\<close>),
  \<^verbatim>\<open>strings.HasSuffix\<close> is \<^const>\<open>suffix\<close> and \<^verbatim>\<open>strings.Contains(s, c)\<close> for a
  one-byte needle is membership in \<^term>\<open>set s\<close>.
\<close>

definition Trim :: "string \<Rightarrow> string \<Rightarrow> string" where
  "Trim s cutset =
     rev (dropWhile (\<lambda>c. c \<in> set cutset) (rev (dropWhile (\<lambda>c. c \<in> set cutset) s)))"

fun LastIndex :: "string \<Rightarrow> char \<Rightarrow> nat option" where
  "LastIndex [] c = None"
| "LastIndex (x # xs) c =
     (case LastIndex xs c of
        Some i \<Rightarrow> Some (Suc i)
      | None \<Rightarrow> if x = c then Some 0 else None)"

text \<open>
  \<^verbatim>\<open>strings.EqualFold(s, t)\<close>, equality under Unicode simple case folding, for an
  ASCII \<open>t\<close> (the encoder passes the literals \<^verbatim>\<open>Message-ID\<close> and \<^verbatim>\<open>Message-Id\<close>).
  Two ASCII bytes are equal under folding when they are equal or are the two cases of one
  letter. The only runes beyond ASCII that fold to an ASCII letter are U+017F (long s,
  bytes C5 BF), which folds to \<open>s\<close>, and U+212A (Kelvin sign, bytes E2 84 AA), which
  folds to \<open>k\<close>. A non-ASCII byte of \<open>t\<close> is outside this model and compares unequal.
\<close>

definition asciiFoldEq :: "char \<Rightarrow> char \<Rightarrow> bool" where
  "asciiFoldEq sr tr =
     (tr = sr \<or>
      (let lo = min sr tr; hi = max sr tr
       in CHR ''A'' \<le> lo \<and> lo \<le> CHR ''Z'' \<and> (of_char hi :: nat) = of_char lo + 32))"

function EqualFold :: "string \<Rightarrow> string \<Rightarrow> bool" where
  "EqualFold s t =
     (case (s, t) of
        ([], []) \<Rightarrow> True
      | ([], _ # _) \<Rightarrow> False
      | (_ # _, []) \<Rightarrow> False
      | (b # bs, c # cs) \<Rightarrow>
          if CHR 0x80 \<le> c then False
          else if b < CHR 0x80 then asciiFoldEq b c \<and> EqualFold bs cs
          else if (c = CHR ''s'' \<or> c = CHR ''S'') \<and> prefix [CHR 0xC5, CHR 0xBF] s
            then EqualFold (drop 2 s) cs
          else if (c = CHR ''k'' \<or> c = CHR ''K'') \<and> prefix [CHR 0xE2, CHR 0x84, CHR 0xAA] s
            then EqualFold (drop 3 s) cs
          else False)"
  by pat_completeness auto
termination
  by (relation "measure (\<lambda>(s, t). length t)") auto

declare EqualFold.simps [simp del]

text \<open>
  \<^verbatim>\<open>base64.StdEncoding\<close> (padded with \<open>=\<close>) and \<^verbatim>\<open>base64.RawURLEncoding\<close> (URL-safe
  alphabet, no padding), \<^verbatim>\<open>EncodeToString\<close>. Three bytes make a 24-bit value
  \<open>val\<close>; Go's \<^verbatim>\<open>val>>k&0x3F\<close> is \<open>val div 2^k mod 64\<close>.
\<close>

definition encodeStd :: string where
  "encodeStd = ''ABCDEFGHIJKLMNOPQRSTUVWXYZabcdefghijklmnopqrstuvwxyz0123456789+/''"

definition encodeURL :: string where
  "encodeURL = ''ABCDEFGHIJKLMNOPQRSTUVWXYZabcdefghijklmnopqrstuvwxyz0123456789-_''"

fun base64Encode :: "string \<Rightarrow> bool \<Rightarrow> string \<Rightarrow> string" where
  "base64Encode al pad [] = []"
| "base64Encode al pad [a] =
     (let val = (of_char a :: nat) * 65536
      in [al ! (val div 262144 mod 64), al ! (val div 4096 mod 64)]
         @ (if pad then ''=='' else []))"
| "base64Encode al pad [a, b] =
     (let val = (of_char a :: nat) * 65536 + of_char b * 256
      in [al ! (val div 262144 mod 64), al ! (val div 4096 mod 64), al ! (val div 64 mod 64)]
         @ (if pad then ''='' else []))"
| "base64Encode al pad (a # b # c # rest) =
     (let val = (of_char a :: nat) * 65536 + of_char b * 256 + of_char c
      in [al ! (val div 262144 mod 64), al ! (val div 4096 mod 64),
          al ! (val div 64 mod 64), al ! (val mod 64)]
         @ base64Encode al pad rest)"

definition StdEncodeToString :: "string \<Rightarrow> string" where
  "StdEncodeToString b = base64Encode encodeStd True b"

definition RawURLEncodeToString :: "string \<Rightarrow> string" where
  "RawURLEncodeToString b = base64Encode encodeURL False b"

text \<open>
  \<^verbatim>\<open>strconv.Quote\<close>, which the verb \<^verbatim>\<open>%q\<close> of \<^verbatim>\<open>fmt.Sprintf\<close> applies to a string:
  a double-quoted Go string literal. The double quote and the backslash are
  backslash-escaped, the other printable ASCII characters stand for themselves, and a
  control character is written as its Go escape. The encoder quotes ASCII strings only
  (a boundary token; a file name that passed \<^verbatim>\<open>isASCII\<close>); a byte above 0x7F is
  written here as \<^verbatim>\<open>\xNN\<close>, which is what Go does for a byte outside any well-formed
  UTF-8 sequence.
\<close>

definition lowerhex :: string where
  "lowerhex = ''0123456789abcdef''"

definition upperhex :: string where
  "upperhex = ''0123456789ABCDEF''"

definition quoteByte :: "char \<Rightarrow> string" where
  "quoteByte c =
     (if c = DQ \<or> c = BSL then [BSL, c]
      else if CHR 0x20 \<le> c \<and> c < CHR 0x7F then [c]
      else if c = CHR 0x07 then [BSL, CHR ''a'']
      else if c = CHR 0x08 then [BSL, CHR ''b'']
      else if c = CHR 0x0C then [BSL, CHR ''f'']
      else if c = LF then [BSL, CHR ''n'']
      else if c = CR then [BSL, CHR ''r'']
      else if c = CHR 0x09 then [BSL, CHR ''t'']
      else if c = CHR 0x0B then [BSL, CHR ''v'']
      else [BSL, CHR ''x'', lowerhex ! (of_char c div 16), lowerhex ! (of_char c mod 16)])"

definition Quote :: "string \<Rightarrow> string" where
  "Quote s = [DQ] @ concat (map quoteByte s) @ [DQ]"

text \<open>
  \<^verbatim>\<open>url.QueryEscape\<close>: letters, digits and \<^verbatim>\<open>-_.~\<close> stand for themselves, a space
  becomes \<open>+\<close>, every other byte becomes \<^verbatim>\<open>%XX\<close> in upper-case hexadecimal.
\<close>

definition alnum :: "char \<Rightarrow> bool" where
  "alnum c = ((CHR ''a'' \<le> c \<and> c \<le> CHR ''z'') \<or> (CHR ''A'' \<le> c \<and> c \<le> CHR ''Z'')
              \<or> (CHR ''0'' \<le> c \<and> c \<le> CHR ''9''))"

definition shouldEscape :: "char \<Rightarrow> bool" where
  "shouldEscape c = (\<not> (alnum c \<or> c \<in> set ''-_.~''))"

definition escapeByte :: "char \<Rightarrow> string" where
  "escapeByte c =
     (if c = CHR '' '' then ''+''
      else if shouldEscape c
        then [CHR ''%'', upperhex ! (of_char c div 16), upperhex ! (of_char c mod 16)]
      else [c])"

definition QueryEscape :: "string \<Rightarrow> string" where
  "QueryEscape s = concat (map escapeByte s)"

text \<open>
  \<^verbatim>\<open>mime.QEncoding.Encode(charset, s)\<close> for the charset \<^verbatim>\<open>utf-8\<close>: a string with
  only printable ASCII and tabs is returned as it is; any other string becomes one or
  more RFC 2047 encoded words \<^verbatim>\<open>=?utf-8?q?...?=\<close>. A word holds at most
  \<open>maxContentLen\<close> encoded characters; a longer text is continued in a new word after
  CRLF and a space, and a multi-byte rune is never split across two words.
\<close>

definition needsEncoding :: "string \<Rightarrow> bool" where
  "needsEncoding s =
     list_ex (\<lambda>b. (b < CHR '' '' \<or> CHR ''~'' < b) \<and> b \<noteq> CHR 0x09) s"

definition maxContentLen :: nat where
  "maxContentLen = 75 - length ''=?UTF-8?q?'' - length ''?=''"

definition openWord :: "string \<Rightarrow> string" where
  "openWord charset = ''=?'' @ charset @ ''?q?''"

definition closeWord :: string where
  "closeWord = ''?=''"

definition writeQByte :: "char \<Rightarrow> string" where
  "writeQByte b =
     (if b = CHR '' '' then ''_''
      else if CHR ''!'' \<le> b \<and> b \<le> CHR ''~'' \<and> b \<noteq> CHR ''='' \<and> b \<noteq> CHR ''?'' \<and> b \<noteq> CHR ''_''
        then [b]
      else [CHR ''='', upperhex ! (of_char b div 16), upperhex ! (of_char b mod 16)])"

definition writeQString :: "string \<Rightarrow> string" where
  "writeQString s = concat (map writeQByte s)"

definition qSingle :: "char \<Rightarrow> bool" where
  "qSingle b =
     (CHR '' '' \<le> b \<and> b \<le> CHR ''~'' \<and> b \<noteq> CHR ''='' \<and> b \<noteq> CHR ''?'' \<and> b \<noteq> CHR ''_'')"

function qEncode :: "string \<Rightarrow> nat \<Rightarrow> string \<Rightarrow> string" where
  "qEncode charset currentLen s =
     (if s = [] then []
      else
        let rl = (if qSingle (hd s) then 1 else runeLen s);
            encLen = (if qSingle (hd s) then 1 else 3 * runeLen s);
            split = (maxContentLen < currentLen + encLen)
        in (if split then closeWord @ CRLF @ '' '' @ openWord charset else [])
           @ writeQString (take rl s)
           @ qEncode charset ((if split then 0 else currentLen) + encLen) (drop rl s))"
  by pat_completeness auto
termination
  by (relation "measure (\<lambda>(charset, n, s). length s)")
     (auto simp: neq_Nil_conv split: list.splits)

declare qEncode.simps [simp del]

definition QEncode :: "string \<Rightarrow> string \<Rightarrow> string" where
  "QEncode charset s =
     (if \<not> needsEncoding s then s
      else openWord charset @ qEncode charset 0 s @ closeWord)"

text \<open>
  \<^verbatim>\<open>filepath.Base\<close> and \<^verbatim>\<open>filepath.Ext\<close> with \<open>/\<close> as the path separator.
\<close>

definition stripSlashes :: "string \<Rightarrow> string" where
  "stripSlashes path = rev (dropWhile (\<lambda>c. c = CHR ''/'') (rev path))"

definition lastElem :: "string \<Rightarrow> string" where
  "lastElem path = rev (takeWhile (\<lambda>c. c \<noteq> CHR ''/'') (rev path))"

definition Base :: "string \<Rightarrow> string" where
  "Base path =
     (if path = [] then ''.''
      else let p = lastElem (stripSlashes path) in if p = [] then ''/'' else p)"

definition Ext :: "string \<Rightarrow> string" where
  "Ext path =
     (let e = lastElem path
      in if CHR ''.'' \<in> set e
         then CHR ''.'' # rev (takeWhile (\<lambda>c. c \<noteq> CHR ''.'') (rev e))
         else [])"

section \<open>The message encoder\<close>

subsection \<open>Data model\<close>

record mailAttachment =
  Path :: string
  Filename :: string
  MIMEType :: string
  Data :: string

text \<open>
  \<open>AdditionalHeaders\<close> is a Go map. The encoder only ranges over it; the model holds its
  entries as a list, in the order in which the \<^verbatim>\<open>range\<close> loop visits them. Go leaves
  that order unspecified, so a statement about any such list covers every order.
\<close>

record mailOptions =
  From :: string
  To :: "string list"
  Cc :: "string list"
  Bcc :: "string list"
  ReplyTo :: string
  Subject :: string
  Body :: string
  BodyHTML :: string
  InReplyTo :: string
  References :: string
  AdditionalHeaders :: "(string \<times> string) list"
  Attachments :: "mailAttachment list"

text \<open>
  What the encoder reads from its environment, apart from random bytes:
  \<open>now\<close> is \<^verbatim>\<open>time.Now().Format(time.RFC1123Z)\<close>; \<open>ReadFile\<close> is \<^verbatim>\<open>os.ReadFile\<close>
  (\<open>None\<close> when it returns an error); \<open>TypeByExtension\<close> is \<^verbatim>\<open>mime.TypeByExtension\<close>,
  which consults the system's MIME tables; \<open>ToLower\<close> is \<^verbatim>\<open>strings.ToLower\<close>;
  \<open>ParseAddress\<close> is \<^verbatim>\<open>mail.ParseAddress\<close>, giving the \<^verbatim>\<open>Address\<close> field of the parsed
  mailbox (\<open>None\<close> when parsing fails).
\<close>

record env =
  now :: string
  ReadFile :: "string \<Rightarrow> string option"
  TypeByExtension :: "string \<Rightarrow> string"
  ToLower :: "string \<Rightarrow> string"
  ParseAddress :: "string \<Rightarrow> string option"

text \<open>
  The errors of \<^verbatim>\<open>buildRFC822\<close>. Go builds them with \<^verbatim>\<open>errors.New\<close> and
  \<^verbatim>\<open>fmt.Errorf\<close>; the constructor is the kind of error and its argument is what the
  message names (\<^verbatim>\<open>missing From\<close>, \<^verbatim>\<open>invalid Reply-To: ...\<close>, the path that could not be
  read).
\<close>

datatype error =
    MissingField string
  | InvalidHeaderValue string
  | AttachmentUnreadable string
  | RandomSourceFailure

subsection \<open>Random bytes\<close>

text \<open>
  \<^verbatim>\<open>crypto/rand\<close> is modelled as a tape of bytes that the encoder receives with the
  request. \<^verbatim>\<open>rand.Read\<close> on a buffer of \<open>n\<close> bytes takes the next \<open>n\<close> bytes of the
  tape; a tape that holds fewer stands for a read that returns an error.
\<close>

definition randRead :: "nat \<Rightarrow> string \<Rightarrow> error + (string \<times> string)" where
  "randRead n rnd =
     (if length rnd < n then Inl RandomSourceFailure else Inr (take n rnd, drop n rnd))"

subsection \<open>Helpers of the encoder\<close>

text \<open>
  The functions of lines 205 to 323 of the source. A function that writes to the buffer
  takes the buffer and returns it extended; a function that draws random bytes takes the
  tape and returns what is left of it.
\<close>

definition writeHeader :: "string \<Rightarrow> string \<Rightarrow> string \<Rightarrow> string" where
  "writeHeader b name v = b @ name @ '': '' @ v @ CRLF"

text \<open>The loop of \<^verbatim>\<open>wrapBase64\<close> (lines 216 to 223), with the builder \<open>out\<close>.\<close>

function wrapLoop :: "string \<Rightarrow> string \<Rightarrow> string" where
  "wrapLoop out s =
     (if 76 < length s then wrapLoop (out @ take 76 s @ CRLF) (drop 76 s)
      else if 0 < length s then out @ s
      else out)"
  by pat_completeness auto
termination
  by (relation "measure (\<lambda>(out, s). length s)") auto

declare wrapLoop.simps [simp del]

definition wrapBase64 :: "string \<Rightarrow> string" where
  "wrapBase64 b = wrapLoop [] (StdEncodeToString b)"

definition writeBodyWithTrailingCRLF :: "string \<Rightarrow> string \<Rightarrow> string" where
  "writeBodyWithTrailingCRLF b body =
     (if \<not> suffix CRLF body then b @ body @ CRLF else b @ body)"

definition writeTextPart :: "string \<Rightarrow> string \<Rightarrow> string \<Rightarrow> string \<Rightarrow> string" where
  "writeTextPart b boundary contentType body =
     writeBodyWithTrailingCRLF
       (b @ ''--'' @ boundary @ CRLF
          @ ''Content-Type: '' @ contentType @ CRLF
          @ ''Content-Transfer-Encoding: 7bit'' @ CRLF @ CRLF)
       body"

definition randomBoundary :: "string \<Rightarrow> error + (string \<times> string)" where
  "randomBoundary rnd =
     (case randRead 18 rnd of
        Inl e \<Rightarrow> Inl e
      | Inr (b, rnd') \<Rightarrow> Inr (''gogcli_'' @ RawURLEncodeToString b, rnd'))"

definition validateHeaderValue :: "string \<Rightarrow> string option" where
  "validateHeaderValue v =
     (if CR \<in> set v \<or> LF \<in> set v then Some ''header value contains newline'' else None)"

fun hasHeader :: "(string \<times> string) list \<Rightarrow> string \<Rightarrow> bool" where
  "hasHeader [] name = False"
| "hasHeader ((k, v) # headers) name = (if EqualFold k name then True else hasHeader headers name)"

text \<open>
  The domain of the Message-ID, as the first part of \<^verbatim>\<open>randomMessageID\<close> computes it
  (lines 266 to 274): from the parsed address, else from the text behind the last \<open>@\<close>
  of \<^verbatim>\<open>from\<close>, else \<^verbatim>\<open>gogcli.local\<close>.
\<close>

definition messageIDDomain :: "env \<Rightarrow> string \<Rightarrow> string" where
  "messageIDDomain env from =
     (case ParseAddress env (TrimSpace from) of
        Some addr \<Rightarrow>
          (case LastIndex addr (CHR ''@'') of
             Some at \<Rightarrow>
               if at + 1 < length addr then TrimSpace (drop (at + 1) addr) else ''gogcli.local''
           | None \<Rightarrow> ''gogcli.local'')
      | None \<Rightarrow>
          (case LastIndex from (CHR ''@'') of
             Some at \<Rightarrow>
               if at + 1 < length from then Trim (TrimSpace (drop (at + 1) from)) '' >''
               else ''gogcli.local''
           | None \<Rightarrow> ''gogcli.local''))"

definition randomMessageID :: "env \<Rightarrow> string \<Rightarrow> string \<Rightarrow> error + (string \<times> string)" where
  "randomMessageID env rnd from =
     (let domain = messageIDDomain env from
      in (case randRead 16 rnd of
            Inl e \<Rightarrow> Inl e
          | Inr (b, rnd') \<Rightarrow>
              Inr (''<'' @ RawURLEncodeToString b @ ''@'' @ domain @ ''>'', rnd')))"

fun isASCII :: "string \<Rightarrow> bool" where
  "isASCII [] = True"
| "isASCII (c # s) = (if CHR 0x80 \<le> c then False else isASCII s)"

definition encodeHeaderIfNeeded :: "string \<Rightarrow> string" where
  "encodeHeaderIfNeeded v = (if isASCII v then v else QEncode ''utf-8'' v)"

definition normalizeCRLF :: "string \<Rightarrow> string" where
  "normalizeCRLF s = ReplaceAll (ReplaceAll (ReplaceAll s CRLF [LF]) [CR] [LF]) [LF] CRLF"

definition rfc5987Encode :: "string \<Rightarrow> string" where
  "rfc5987Encode s = ReplaceAll (QueryEscape s) ''+'' ''%20''"

definition contentDispositionFilename :: "string \<Rightarrow> string" where
  "contentDispositionFilename filename =
     (let filename = TrimSpace filename
      in if filename = [] then ''filename='' @ [DQ] @ ''attachment'' @ [DQ]
         else if isASCII filename then ''filename='' @ Quote filename
         else ''filename*=UTF-8'' @ [CHR 0x27, CHR 0x27] @ rfc5987Encode filename)"

subsection \<open>\<^verbatim>\<open>buildRFC822\<close>\<close>

text \<open>
  The function is modelled in the order of its statements, in four pieces: the checks
  that come before the first write (lines 41 to 55), the header block (lines 56 to 108),
  the body (lines 110 to 172) and the attachments (lines 174 to 202). The buffer
  \<^verbatim>\<open>b\<close> and the random tape are passed from one statement to the next; an early
  \<^verbatim>\<open>return nil, err\<close> is an \<open>Inl\<close>, so the bytes written so far are lost with it.
\<close>

definition checkRequired :: "mailOptions \<Rightarrow> error option" where
  "checkRequired opts =
     (if TrimSpace (From opts) = [] then Some (MissingField ''From'')
      else if length (To opts) = 0 then Some (MissingField ''To'')
      else if TrimSpace (Subject opts) = [] then Some (MissingField ''Subject'')
      else (case validateHeaderValue (From opts) of
              Some _ \<Rightarrow> Some (InvalidHeaderValue ''From'')
            | None \<Rightarrow> None))"

text \<open>The loop of lines 56 to 60 over the addresses of To, Cc and Bcc.\<close>

fun validateAddresses :: "string list \<Rightarrow> error option" where
  "validateAddresses [] = None"
| "validateAddresses (a # as) =
     (case validateHeaderValue a of
        Some _ \<Rightarrow> Some (InvalidHeaderValue ''address'')
      | None \<Rightarrow> validateAddresses as)"

text \<open>
  The statement written three times, for Reply-To (lines 70 to 75), In-Reply-To (89 to
  94) and References (95 to 100): a value that is blank after trimming is skipped, any
  other is validated and then written trimmed.
\<close>

definition optionalHeader :: "string \<Rightarrow> string \<Rightarrow> string \<Rightarrow> error + string" where
  "optionalHeader b name v =
     (if TrimSpace v \<noteq> [] then
        (case validateHeaderValue v of
           Some _ \<Rightarrow> Inl (InvalidHeaderValue name)
         | None \<Rightarrow> Inr (writeHeader b name (TrimSpace v)))
      else Inr b)"

text \<open>The loop of lines 101 to 108 over \<open>AdditionalHeaders\<close>.\<close>

fun additionalHeaders :: "string \<Rightarrow> (string \<times> string) list \<Rightarrow> error + string" where
  "additionalHeaders b [] = Inr b"
| "additionalHeaders b ((k, v) # kvs) =
     (if TrimSpace k \<noteq> [] \<and> TrimSpace v \<noteq> [] then
        (case validateHeaderValue v of
           Some _ \<Rightarrow> Inl (InvalidHeaderValue (''header '' @ k))
         | None \<Rightarrow> additionalHeaders (writeHeader b k v) kvs)
      else additionalHeaders b kvs)"

text \<open>
  Lines 81 to 87: a Message-ID is drawn and written unless \<open>AdditionalHeaders\<close> has one.
\<close>

definition messageIDHeader ::
  "env \<Rightarrow> string \<Rightarrow> string \<Rightarrow> mailOptions \<Rightarrow> error + (string \<times> string)" where
  "messageIDHeader env rnd b opts =
     (if \<not> hasHeader (AdditionalHeaders opts) ''Message-ID''
         \<and> \<not> hasHeader (AdditionalHeaders opts) ''Message-Id'' then
        (case randomMessageID env rnd (From opts) of
           Inl e \<Rightarrow> Inl e
         | Inr (messageID, rnd') \<Rightarrow> Inr (writeHeader b ''Message-ID'' messageID, rnd'))
      else Inr (b, rnd))"

text \<open>
  Lines 56 to 108. \<open>addrs\<close> is the slice that line 56 builds from To, Cc and Bcc and
  ranges over.
\<close>

definition writeHeaders ::
  "env \<Rightarrow> string \<Rightarrow> string list \<Rightarrow> mailOptions \<Rightarrow> error + (string \<times> string)" where
  "writeHeaders env rnd addrs opts =
     (case validateAddresses addrs of
        Some e \<Rightarrow> Inl e
      | None \<Rightarrow>
         (let b = writeHeader [] ''From'' (From opts);
              b = writeHeader b ''To'' (Join (To opts) '', '');
              b = (if 0 < length (Cc opts) then writeHeader b ''Cc'' (Join (Cc opts) '', '') else b);
              b = (if 0 < length (Bcc opts) then writeHeader b ''Bcc'' (Join (Bcc opts) '', '') else b)
          in (case optionalHeader b ''Reply-To'' (ReplyTo opts) of
                Inl e \<Rightarrow> Inl e
              | Inr b \<Rightarrow>
                 (case validateHeaderValue (Subject opts) of
                    Some _ \<Rightarrow> Inl (InvalidHeaderValue ''Subject'')
                  | None \<Rightarrow>
                     (let b = writeHeader b ''Subject'' (encodeHeaderIfNeeded (Subject opts));
                          b = writeHeader b ''Date'' (now env)
                      in (case messageIDHeader env rnd b opts of
                            Inl e \<Rightarrow> Inl e
                          | Inr (b, rnd') \<Rightarrow>
                             (let b = writeHeader b ''MIME-Version'' ''1.0''
                              in (case optionalHeader b ''In-Reply-To'' (InReplyTo opts) of
                                    Inl e \<Rightarrow> Inl e
                                  | Inr b \<Rightarrow>
                                     (case optionalHeader b ''References'' (References opts) of
                                        Inl e \<Rightarrow> Inl e
                                      | Inr b \<Rightarrow>
                                         (case additionalHeaders b (AdditionalHeaders opts) of
                                            Inl e \<Rightarrow> Inl e
                                          | Inr b \<Rightarrow> Inr (b, rnd')))))))))))"

definition textPlain :: string where
  "textPlain = ''text/plain; charset='' @ [DQ] @ ''utf-8'' @ [DQ]"

definition textHTML :: string where
  "textHTML = ''text/html; charset='' @ [DQ] @ ''utf-8'' @ [DQ]"

text \<open>Lines 115 to 142: the body of a message without attachments.\<close>

definition writeBodyNoAttachments ::
  "string \<Rightarrow> string \<Rightarrow> string \<Rightarrow> string \<Rightarrow> error + string" where
  "writeBodyNoAttachments rnd b plainBody htmlBody =
     (let hasPlain = (TrimSpace plainBody \<noteq> []);
          hasHTML = (TrimSpace htmlBody \<noteq> [])
      in if hasPlain \<and> hasHTML then
           (case randomBoundary rnd of
              Inl e \<Rightarrow> Inl e
            | Inr (altBoundary, rnd') \<Rightarrow>
               (let b = writeHeader b ''Content-Type''
                          (''multipart/alternative; boundary='' @ Quote altBoundary);
                    b = b @ CRLF;
                    b = writeTextPart b altBoundary textPlain plainBody;
                    b = writeTextPart b altBoundary textHTML htmlBody
                in Inr (b @ ''--'' @ altBoundary @ ''--'' @ CRLF)))
         else if hasHTML \<and> \<not> hasPlain then
           (let b = writeHeader b ''Content-Type'' textHTML;
                b = writeHeader b ''Content-Transfer-Encoding'' ''7bit'';
                b = b @ CRLF
            in Inr (writeBodyWithTrailingCRLF b htmlBody))
         else
           (let b = writeHeader b ''Content-Type'' textPlain;
                b = writeHeader b ''Content-Transfer-Encoding'' ''7bit'';
                b = b @ CRLF
            in Inr (writeBodyWithTrailingCRLF b plainBody)))"

text \<open>Lines 154 to 172: the body part inside \<^verbatim>\<open>multipart/mixed\<close>.\<close>

definition writeBodyPart ::
  "string \<Rightarrow> string \<Rightarrow> string \<Rightarrow> string \<Rightarrow> error + string" where
  "writeBodyPart rnd b plainBody htmlBody =
     (let hasPlain = (TrimSpace plainBody \<noteq> []);
          hasHTML = (TrimSpace htmlBody \<noteq> [])
      in if hasPlain \<and> hasHTML then
           (case randomBoundary rnd of
              Inl e \<Rightarrow> Inl e
            | Inr (altBoundary, rnd') \<Rightarrow>
               (let b = b @ ''Content-Type: multipart/alternative; boundary=''
                          @ Quote altBoundary @ CRLF @ CRLF;
                    b = writeTextPart b altBoundary textPlain plainBody;
                    b = writeTextPart b altBoundary textHTML htmlBody
                in Inr (b @ ''--'' @ altBoundary @ ''--'' @ CRLF)))
         else if hasHTML \<and> \<not> hasPlain then
           (let b = b @ ''Content-Type: '' @ textHTML @ CRLF;
                b = b @ ''Content-Transfer-Encoding: 7bit'' @ CRLF @ CRLF
            in Inr (writeBodyWithTrailingCRLF b htmlBody))
         else
           (let b = b @ ''Content-Type: '' @ textPlain @ CRLF;
                b = b @ ''Content-Transfer-Encoding: 7bit'' @ CRLF @ CRLF
            in Inr (writeBodyWithTrailingCRLF b plainBody)))"

text \<open>
  Lines 176 to 191: the loop variable \<^verbatim>\<open>a\<close> is a copy of the slice element, and the
  three assignments fill the blank fields of that copy.
\<close>

definition resolveAttachment :: "env \<Rightarrow> mailAttachment \<Rightarrow> error + mailAttachment" where
  "resolveAttachment env a =
     (let a = (if Filename a = [] then a\<lparr>Filename := Base (Path a)\<rparr> else a);
          a = (if MIMEType a = [] then
                 (let a = a\<lparr>MIMEType := TypeByExtension env (ToLower env (Ext (Filename a)))\<rparr>
                  in if MIMEType a = [] then a\<lparr>MIMEType := ''application/octet-stream''\<rparr> else a)
               else a)
      in if length (Data a) = 0 then
           (case ReadFile env (Path a) of
              None \<Rightarrow> Inl (AttachmentUnreadable (Path a))
            | Some data \<Rightarrow> Inr (a\<lparr>Data := data\<rparr>))
         else Inr a)"

text \<open>Lines 193 to 198: one attachment part.\<close>

definition writeAttachment :: "string \<Rightarrow> string \<Rightarrow> mailAttachment \<Rightarrow> string" where
  "writeAttachment b mixedBoundary a =
     b @ CRLF @ ''--'' @ mixedBoundary @ CRLF
       @ ''Content-Type: '' @ MIMEType a @ CRLF
       @ ''Content-Transfer-Encoding: base64'' @ CRLF
       @ ''Content-Disposition: attachment; '' @ contentDispositionFilename (Filename a)
       @ CRLF @ CRLF
       @ wrapBase64 (Data a)
       @ CRLF"

fun writeAttachments ::
  "env \<Rightarrow> string \<Rightarrow> string \<Rightarrow> mailAttachment list \<Rightarrow> error + string" where
  "writeAttachments env mixedBoundary b [] = Inr b"
| "writeAttachments env mixedBoundary b (a # as) =
     (case resolveAttachment env a of
        Inl e \<Rightarrow> Inl e
      | Inr a' \<Rightarrow> writeAttachments env mixedBoundary (writeAttachment b mixedBoundary a') as)"

text \<open>Lines 110 to 202.\<close>

definition writeBody :: "env \<Rightarrow> string \<Rightarrow> string \<Rightarrow> mailOptions \<Rightarrow> error + string" where
  "writeBody env rnd b opts =
     (let plainBody = normalizeCRLF (Body opts);
          htmlBody = normalizeCRLF (BodyHTML opts)
      in if length (Attachments opts) = 0 then writeBodyNoAttachments rnd b plainBody htmlBody
         else
           (case randomBoundary rnd of
              Inl e \<Rightarrow> Inl e
            | Inr (mixedBoundary, rnd') \<Rightarrow>
               (let b = writeHeader b ''Content-Type''
                          (''multipart/mixed; boundary='' @ Quote mixedBoundary);
                    b = b @ CRLF;
                    b = b @ ''--'' @ mixedBoundary @ CRLF
                in (case writeBodyPart rnd' b plainBody htmlBody of
                      Inl e \<Rightarrow> Inl e
                    | Inr b \<Rightarrow>
                       (case writeAttachments env mixedBoundary b (Attachments opts) of
                          Inl e \<Rightarrow> Inl e
                        | Inr b \<Rightarrow> Inr (b @ ''--'' @ mixedBoundary @ ''--'' @ CRLF))))))"

text \<open>Lines 56 to 202, for the slice \<open>addrs\<close> of line 56.\<close>

definition encodeFrom :: "env \<Rightarrow> string \<Rightarrow> string list \<Rightarrow> mailOptions \<Rightarrow> error + string" where
  "encodeFrom env rnd addrs opts =
     (case writeHeaders env rnd addrs opts of
        Inl e \<Rightarrow> Inl e
      | Inr (b, rnd') \<Rightarrow> writeBody env rnd' b opts)"

text \<open>
  The whole function, for a request given by value: the slice of line 56 holds the
  addresses of To, then Cc, then Bcc.
\<close>

definition buildRFC822 :: "env \<Rightarrow> string \<Rightarrow> mailOptions \<Rightarrow> error + string" where
  "buildRFC822 env rnd opts =
     (case checkRequired opts of
        Some e \<Rightarrow> Inl e
      | None \<Rightarrow> encodeFrom env rnd (To opts @ Cc opts @ Bcc opts) opts)"

section \<open>The request in the caller's memory\<close>

text \<open>
  \<^verbatim>\<open>buildRFC822\<close> receives \<^verbatim>\<open>opts\<close> by value, but the slices in it (\<open>To\<close>, \<open>Cc\<close>,
  \<open>Bcc\<close>, \<open>Attachments\<close>) share their backing arrays with the caller. A slice is a
  header: the backing array, the offset of the first element, the length and the
  capacity. The memory holds the backing arrays. A slice is well formed when
  \<open>len \<le> cap\<close> and \<open>off + cap\<close> does not exceed the length of its array. The bytes of
  \<open>Data\<close> are only read by the function, so an attachment descriptor holds them by value.
\<close>

record sliceHeader =
  arr :: nat
  off :: nat
  len :: nat
  cap :: nat

record memory =
  strArr :: "nat \<Rightarrow> string list"
  attArr :: "nat \<Rightarrow> mailAttachment list"

text \<open>
  The request as it lies in memory: \<open>byValue\<close> holds the string fields and the map; the
  four slice fields are headers into the memory (the slice fields of \<open>byValue\<close> itself are
  not used). \<open>view\<close> is the request as the caller reads it.
\<close>

record mailOptionsRef =
  byValue :: mailOptions
  toS :: sliceHeader
  ccS :: sliceHeader
  bccS :: sliceHeader
  attachmentsS :: sliceHeader

definition loadStr :: "memory \<Rightarrow> sliceHeader \<Rightarrow> string list" where
  "loadStr m s = take (len s) (drop (off s) (strArr m (arr s)))"

definition loadAtt :: "memory \<Rightarrow> sliceHeader \<Rightarrow> mailAttachment list" where
  "loadAtt m s = take (len s) (drop (off s) (attArr m (arr s)))"

definition view :: "memory \<Rightarrow> mailOptionsRef \<Rightarrow> mailOptions" where
  "view m r =
     (byValue r)\<lparr>To := loadStr m (toS r), Cc := loadStr m (ccS r), Bcc := loadStr m (bccS r),
                 Attachments := loadAtt m (attachmentsS r)\<rparr>"

text \<open>
  Go's \<^verbatim>\<open>append(s, xs...)\<close> on a slice of strings. When the capacity of \<open>s\<close> holds the
  new elements, they are written into the backing array of \<open>s\<close>, behind its last
  element; otherwise a new array is allocated, which the caller cannot reach, and the
  memory stays as it is. The result is the memory and the elements of the new slice.
\<close>

definition appendStr :: "memory \<Rightarrow> sliceHeader \<Rightarrow> string list \<Rightarrow> memory \<times> string list" where
  "appendStr m s xs =
     (if len s + length xs \<le> cap s then
        (let a = strArr m (arr s);
             a' = take (off s + len s) a @ xs @ drop (off s + len s + length xs) a
         in (m\<lparr>strArr := (strArr m)(arr s := a')\<rparr>, loadStr m s @ xs))
      else (m, loadStr m s @ xs))"

text \<open>
  \<^verbatim>\<open>buildRFC822\<close> with the memory made explicit. The checks of lines 41 to 55 read the
  request. Line 56 evaluates, from left to right,
  \<^verbatim>\<open>append([]string{}, opts.To...)\<close>, which copies the To addresses into a new array,
  and \<^verbatim>\<open>append(opts.Cc, opts.Bcc...)\<close>, which appends to the caller's \<open>Cc\<close> slice. The
  rest of the function reads the request from the memory as it is then. The loop over
  the attachments assigns to its loop variable only, a copy of the slice element, so it
  writes nothing.
\<close>

definition buildRFC822_mem ::
  "env \<Rightarrow> string \<Rightarrow> memory \<Rightarrow> mailOptionsRef \<Rightarrow> memory \<times> (error + string)" where
  "buildRFC822_mem env rnd m r =
     (case checkRequired (view m r) of
        Some e \<Rightarrow> (m, Inl e)
      | None \<Rightarrow>
          (let toCopy = loadStr m (toS r);
               (m', ccBcc) = appendStr m (ccS r) (loadStr m (bccS r))
           in (m', encodeFrom env rnd (toCopy @ ccBcc) (view m' r))))"

section \<open>Notions used to state the properties\<close>

text \<open>
  The lines of a text whose lines are separated by CRLF: the text is cut at every CRLF.
\<close>

fun splitCRLF :: "string \<Rightarrow> string list" where
  "splitCRLF [] = [[]]"
| "splitCRLF [c] = [[c]]"
| "splitCRLF (c # d # s) =
     (if c = CR \<and> d = LF then [] # splitCRLF s
      else (case splitCRLF (d # s) of l # ls \<Rightarrow> (c # l) # ls | [] \<Rightarrow> [[c]]))"

subsection \<open>The header block as the specification lays it out\<close>

text \<open>
  The specification fixes the order of the header lines: From, To, Cc (if any), Bcc (if
  any), Reply-To (if present), Subject, Date, Message-ID (unless supplied), MIME-Version,
  In-Reply-To (if present), References (if present), then the additional headers whose
  key and value are both non-blank. The following definitions write that block down,
  to be compared with what \<^const>\<open>writeHeaders\<close> produces.
\<close>

definition hasNewline :: "string \<Rightarrow> bool" where
  "hasNewline v = (CR \<in> set v \<or> LF \<in> set v)"

definition headerLine :: "string \<Rightarrow> string \<Rightarrow> string" where
  "headerLine name v = name @ '': '' @ v @ CRLF"

definition optionalLine :: "string \<Rightarrow> string \<Rightarrow> string" where
  "optionalLine name v = (if TrimSpace v = [] then [] else headerLine name (TrimSpace v))"

definition emitted :: "string \<times> string \<Rightarrow> bool" where
  "emitted kv = (TrimSpace (fst kv) \<noteq> [] \<and> TrimSpace (snd kv) \<noteq> [])"

definition headersBeforeSubject :: "mailOptions \<Rightarrow> string" where
  "headersBeforeSubject opts =
     headerLine ''From'' (From opts)
     @ headerLine ''To'' (Join (To opts) '', '')
     @ (if Cc opts = [] then [] else headerLine ''Cc'' (Join (Cc opts) '', ''))
     @ (if Bcc opts = [] then [] else headerLine ''Bcc'' (Join (Bcc opts) '', ''))
     @ optionalLine ''Reply-To'' (ReplyTo opts)"

definition headersBeforeMessageID :: "env \<Rightarrow> mailOptions \<Rightarrow> string" where
  "headersBeforeMessageID env opts =
     headersBeforeSubject opts
     @ headerLine ''Subject'' (encodeHeaderIfNeeded (Subject opts))
     @ headerLine ''Date'' (now env)"

definition suppliedMessageID :: "mailOptions \<Rightarrow> bool" where
  "suppliedMessageID opts =
     list_ex (\<lambda>kv. EqualFold (fst kv) ''Message-ID'') (AdditionalHeaders opts)"

definition generatedMessageID :: "env \<Rightarrow> string \<Rightarrow> mailOptions \<Rightarrow> string" where
  "generatedMessageID env rnd opts =
     ''<'' @ RawURLEncodeToString (take 16 rnd) @ ''@'' @ messageIDDomain env (From opts) @ ''>''"

definition headersAfterMessageID :: "mailOptions \<Rightarrow> string" where
  "headersAfterMessageID opts =
     headerLine ''MIME-Version'' ''1.0''
     @ optionalLine ''In-Reply-To'' (InReplyTo opts)
     @ optionalLine ''References'' (References opts)
     @ concat (map (\<lambda>kv. headerLine (fst kv) (snd kv))
                 (filter emitted (AdditionalHeaders opts)))"

definition headerBlock :: "env \<Rightarrow> string \<Rightarrow> mailOptions \<Rightarrow> string" where
  "headerBlock env rnd opts =
     headersBeforeMessageID env opts
     @ (if suppliedMessageID opts then []
        else headerLine ''Message-ID'' (generatedMessageID env rnd opts))
     @ headersAfterMessageID opts"

text \<open>The random tape that is left when the header block has been written.\<close>

definition tapeAfterHeaders :: "string \<Rightarrow> mailOptions \<Rightarrow> string" where
  "tapeAfterHeaders rnd opts = (if suppliedMessageID opts then rnd else drop 16 rnd)"

subsection \<open>The body as the specification lays it out\<close>

text \<open>
  A MIME entity is written as its own header lines, a blank line and its content. The
  specification builds the body by one three-way rule, used for a message without
  attachments and again for the first part of \<^verbatim>\<open>multipart/mixed\<close>.
\<close>

definition boundaryOf :: "string \<Rightarrow> string" where
  "boundaryOf rnd = ''gogcli_'' @ RawURLEncodeToString (take 18 rnd)"

definition textEntity :: "string \<Rightarrow> string \<Rightarrow> string" where
  "textEntity contentType body =
     ''Content-Type: '' @ contentType @ CRLF
     @ ''Content-Transfer-Encoding: 7bit'' @ CRLF
     @ CRLF
     @ body @ (if suffix CRLF body then [] else CRLF)"

definition alternativeEntity :: "string \<Rightarrow> string \<Rightarrow> string \<Rightarrow> string" where
  "alternativeEntity boundary plain html =
     ''Content-Type: multipart/alternative; boundary='' @ Quote boundary @ CRLF
     @ CRLF
     @ ''--'' @ boundary @ CRLF @ textEntity textPlain plain
     @ ''--'' @ boundary @ CRLF @ textEntity textHTML html
     @ ''--'' @ boundary @ ''--'' @ CRLF"

definition bodyEntity :: "string \<Rightarrow> string \<Rightarrow> string \<Rightarrow> string" where
  "bodyEntity altBoundary plain html =
     (if TrimSpace plain \<noteq> [] \<and> TrimSpace html \<noteq> [] then alternativeEntity altBoundary plain html
      else if TrimSpace html \<noteq> [] then textEntity textHTML html
      else textEntity textPlain plain)"

text \<open>
  The attachment as it is emitted: a blank file name is taken from the path, a blank
  MIME type from the extension of the file name, empty data from the file.
\<close>

definition unreadable :: "env \<Rightarrow> mailAttachment \<Rightarrow> bool" where
  "unreadable env a = (Data a = [] \<and> ReadFile env (Path a) = None)"

definition resolved :: "env \<Rightarrow> mailAttachment \<Rightarrow> mailAttachment" where
  "resolved env a =
     (let filename = (if Filename a = [] then Base (Path a) else Filename a);
          inferred = TypeByExtension env (ToLower env (Ext filename))
      in \<lparr>Path = Path a,
          Filename = filename,
          MIMEType = (if MIMEType a \<noteq> [] then MIMEType a
                      else if inferred = [] then ''application/octet-stream'' else inferred),
          Data = (if Data a \<noteq> [] then Data a
                  else (case ReadFile env (Path a) of Some d \<Rightarrow> d | None \<Rightarrow> []))\<rparr>)"

definition attachmentEntity :: "mailAttachment \<Rightarrow> string" where
  "attachmentEntity a =
     ''Content-Type: '' @ MIMEType a @ CRLF
     @ ''Content-Transfer-Encoding: base64'' @ CRLF
     @ ''Content-Disposition: attachment; '' @ contentDispositionFilename (Filename a) @ CRLF
     @ CRLF
     @ wrapBase64 (Data a) @ CRLF"

definition mixedEntity ::
  "string \<Rightarrow> string \<Rightarrow> string \<Rightarrow> string \<Rightarrow> mailAttachment list \<Rightarrow> string" where
  "mixedEntity mixedBoundary altBoundary plain html atts =
     ''Content-Type: multipart/mixed; boundary='' @ Quote mixedBoundary @ CRLF
     @ CRLF
     @ ''--'' @ mixedBoundary @ CRLF @ bodyEntity altBoundary plain html
     @ concat (map (\<lambda>a. CRLF @ ''--'' @ mixedBoundary @ CRLF @ attachmentEntity a) atts)
     @ ''--'' @ mixedBoundary @ ''--'' @ CRLF"

definition messageEntity :: "env \<Rightarrow> string \<Rightarrow> mailOptions \<Rightarrow> string" where
  "messageEntity env rnd opts =
     (let plain = normalizeCRLF (Body opts);
          html = normalizeCRLF (BodyHTML opts)
      in if Attachments opts = [] then bodyEntity (boundaryOf rnd) plain html
         else mixedEntity (boundaryOf rnd) (boundaryOf (drop 18 rnd)) plain html
                (map (resolved env) (Attachments opts)))"

subsection \<open>When the encoder succeeds\<close>

definition requiredPresent :: "mailOptions \<Rightarrow> bool" where
  "requiredPresent opts =
     (TrimSpace (From opts) \<noteq> [] \<and> To opts \<noteq> [] \<and> TrimSpace (Subject opts) \<noteq> [])"

text \<open>
  The header values that the encoder writes are free of CR and LF. An optional value
  that is blank after trimming, and an additional header with a blank key or a blank
  value, are not written and not looked at.
\<close>

definition writtenAndBroken :: "string \<Rightarrow> bool" where
  "writtenAndBroken v = (TrimSpace v \<noteq> [] \<and> hasNewline v)"

definition headerValuesClean :: "mailOptions \<Rightarrow> bool" where
  "headerValuesClean opts =
     (\<not> hasNewline (From opts)
      \<and> \<not> list_ex hasNewline (To opts @ Cc opts @ Bcc opts)
      \<and> \<not> writtenAndBroken (ReplyTo opts)
      \<and> \<not> hasNewline (Subject opts)
      \<and> \<not> writtenAndBroken (InReplyTo opts)
      \<and> \<not> writtenAndBroken (References opts)
      \<and> \<not> list_ex (\<lambda>kv. emitted kv \<and> hasNewline (snd kv)) (AdditionalHeaders opts))"

definition bothBodies :: "mailOptions \<Rightarrow> bool" where
  "bothBodies opts =
     (TrimSpace (normalizeCRLF (Body opts)) \<noteq> [] \<and> TrimSpace (normalizeCRLF (BodyHTML opts)) \<noteq> [])"

definition randomNeeded :: "mailOptions \<Rightarrow> nat" where
  "randomNeeded opts =
     (if suppliedMessageID opts then 0 else 16)
     + (if Attachments opts = [] then 0 else 18)
     + (if bothBodies opts then 18 else 0)"

definition attachmentsReadable :: "env \<Rightarrow> mailOptions \<Rightarrow> bool" where
  "attachmentsReadable env opts = (\<not> list_ex (unreadable env) (Attachments opts))"

subsection \<open>File name parameters\<close>

text \<open>
  Percent-encoding of one byte: letters, digits and \<^verbatim>\<open>-_.~\<close> stand for themselves,
  any other byte (the space and \<open>+\<close> among them) is written \<^verbatim>\<open>%XX\<close>.
\<close>

definition percentByte :: "char \<Rightarrow> string" where
  "percentByte c =
     (if shouldEscape c
        then [CHR ''%'', upperhex ! (of_char c div 16), upperhex ! (of_char c mod 16)]
      else [c])"

text \<open>
  The printable ASCII characters that \<^verbatim>\<open>%q\<close> writes as they are: from the space to the
  tilde, without the double quote and the backslash.
\<close>

definition plainPrintable :: "char \<Rightarrow> bool" where
  "plainPrintable c = (CHR 0x20 \<le> c \<and> c < CHR 0x7F \<and> c \<noteq> DQ \<and> c \<noteq> BSL)"

subsection \<open>Sample inputs\<close>

definition env0 :: env where
  "env0 =
     \<lparr>now = ''Mon, 02 Jan 2006 15:04:05 -0700'',
      ReadFile = (\<lambda>p. if p = ''/tmp/a.bin'' then Some ''xyz'' else None),
      TypeByExtension = (\<lambda>e. if e = ''.txt'' then ''text/plain; charset=utf-8'' else []),
      ToLower = (\<lambda>s. s),
      ParseAddress = (\<lambda>s. if CHR ''@'' \<in> set s then Some s else None)\<rparr>"

definition req0 :: mailOptions where
  "req0 =
     \<lparr>From = ''a@b.com'', To = [''c@d.com''], Cc = [], Bcc = [], ReplyTo = [],
      Subject = ''Hi'', Body = ''Hello'', BodyHTML = [], InReplyTo = [], References = [],
      AdditionalHeaders = [], Attachments = []\<rparr>"

definition rnd0 :: string where
  "rnd0 = ''0123456789abcdefghijklmnopqrstuvwxyzABCDEFGHIJKLMNOPQRSTUVWXYZ''"

definition att0 :: mailAttachment where
  "att0 = \<lparr>Path = [], Filename = ''x.txt'', MIMEType = ''text/plain'', Data = ''abc''\<rparr>"

definition att1 :: mailAttachment where
  "att1 = \<lparr>Path = ''/tmp/a.bin'', Filename = [], MIMEType = [], Data = []\<rparr>"

definition req4 :: mailOptions where
  "req4 = req0\<lparr>Body := ''Plain'', BodyHTML := ''<p>HTML</p>'', Attachments := [att0, att1]\<rparr>"

definition reqBlankTo :: mailOptions where
  "reqBlankTo = req0\<lparr>To := ['' '']\<rparr>"

definition reqNewlineReplyTo :: mailOptions where
  "reqNewlineReplyTo = req0\<lparr>ReplyTo := [LF]\<rparr>"

definition reqNewlineFromNoTo :: mailOptions where
  "reqNewlineFromNoTo = req0\<lparr>From := ''a@b.com'' @ CRLF @ ''Bcc: x@y.z'', To := []\<rparr>"

definition reqNewlineSubject :: mailOptions where
  "reqNewlineSubject = req0\<lparr>Subject := ''a'' @ CRLF @ ''Bcc: x@y.z''\<rparr>"

definition reqNewlineKey :: mailOptions where
  "reqNewlineKey = req0\<lparr>AdditionalHeaders := [(''X-A'' @ CRLF @ ''Bcc'', ''x@y.z'')]\<rparr>"

definition reqBlankSubject :: mailOptions where
  "reqBlankSubject = req0\<lparr>Subject := ''  ''\<rparr>"


definition reqOwnMessageID :: mailOptions where
  "reqOwnMessageID = req0\<lparr>AdditionalHeaders := [(''X-Mailer'', ''gog''), (''MESSAGE-id'', ''<1@x.y>'')]\<rparr>"

definition nameWithQuote :: string where
  "nameWithQuote = ''a'' @ [DQ] @ ''b''"

definition nameUTF8 :: string where
  "nameUTF8 = [CHR 0x47, CHR 0x72, CHR 0xC3, CHR 0xBC, CHR 0xC3, CHR 0x9F, CHR 0x65] @ '' 1+.txt''"

definition rndRepeat :: string where
  "rndRepeat = ''0123456789abcdef'' @ ''ABCDEFGHIJKLMNOPQR'' @ ''ABCDEFGHIJKLMNOPQR''"

text \<open>
  A request whose \<open>Cc\<close> and \<open>To\<close> are two windows of one array, as after
  \<^verbatim>\<open>all := []string{"cc@x.com", "to@x.com"}; Cc: all[0:1], To: all[1:2]\<close>, with one
  Bcc address in an array of its own.
\<close>

definition memShared :: memory where
  "memShared =
     \<lparr>strArr = (\<lambda>a. if a = 0 then [''cc@x.com'', ''to@x.com'']
                      else if a = 1 then [''bcc@x.com''] else []),
      attArr = (\<lambda>a. [])\<rparr>"

definition reqShared :: mailOptionsRef where
  "reqShared =
     \<lparr>byValue = req0,
      toS = \<lparr>arr = 0, off = 1, len = 1, cap = 1\<rparr>,
      ccS = \<lparr>arr = 0, off = 0, len = 1, cap = 2\<rparr>,
      bccS = \<lparr>arr = 1, off = 0, len = 1, cap = 1\<rparr>,
      attachmentsS = \<lparr>arr = 0, off = 0, len = 0, cap = 0\<rparr>\<rparr>"

definition reqSharedBefore :: mailOptions where
  "reqSharedBefore = req0\<lparr>To := [''to@x.com''], Cc := [''cc@x.com''], Bcc := [''bcc@x.com'']\<rparr>"

definition reqSharedAfter :: mailOptions where
  "reqSharedAfter = req0\<lparr>To := [''bcc@x.com''], Cc := [''cc@x.com''], Bcc := [''bcc@x.com'']\<rparr>"

section \<open>Properties\<close>

subsection \<open>Bytes, lists and the library functions\<close>

lemma of_char_eq_iff_nat: "((of_char b :: nat) = of_char c) \<longleftrightarrow> b = c"
  by (metis char_of_char)

lemma of_char_div_16: "(of_char (b :: char) :: nat) div 16 < 16"
proof -
  have "(of_char b :: nat) < 256" by (rule nat_of_char_less_256)
  then show ?thesis by arith
qed




lemma base64Encode_set:
  "length al = 64 \<Longrightarrow> set (base64Encode al pad b) \<subseteq> set al \<union> {CHR ''=''}"
  by (induction al pad b rule: base64Encode.induct) (auto simp: Let_def)

lemma quoteByte_plain: "plainPrintable c \<Longrightarrow> quoteByte c = [c]"
  by (simp add: plainPrintable_def quoteByte_def)

lemma Quote_plain: "list_all plainPrintable s \<Longrightarrow> Quote s = [DQ] @ s @ [DQ]"
proof -
  assume "list_all plainPrintable s"
  then have "concat (map quoteByte s) = s"
    by (induction s) (simp_all add: quoteByte_plain)
  then show ?thesis by (simp add: Quote_def)
qed

lemma find_None_list_ex: "(List.find P xs = None) = (\<not> list_ex P xs)"
  by (auto simp: find_None_iff list_ex_iff)

lemma find_Some_list_ex: "List.find P xs = Some x \<Longrightarrow> list_ex P xs"
  by (auto simp: find_Some_iff list_ex_iff)

lemma find_case_Inr_iff:
  "((case List.find P xs of None \<Rightarrow> Inr a | Some x \<Rightarrow> Inl (f x)) = Inr out)
     = (\<not> list_ex P xs \<and> out = a)"
proof (cases "List.find P xs")
  case None
  then have "\<not> list_ex P xs" by (simp add: find_None_list_ex)
  with None show ?thesis by auto
next
  case (Some x)
  then have "list_ex P xs" by (rule find_Some_list_ex)
  with Some show ?thesis by auto
qed

lemma concat_map_member:
  "x \<in> set xs \<Longrightarrow> \<exists>pre post. concat (map f xs) = pre @ f x @ post"
proof -
  assume "x \<in> set xs"
  then obtain ys zs where "xs = ys @ x # zs" by (auto dest: split_list)
  then have "concat (map f xs) = concat (map f ys) @ f x @ concat (map f zs)" by simp
  then show ?thesis by blast
qed

subsection \<open>Base64 and line wrapping\<close>

lemma splitCRLF_noCR: "CR \<notin> set xs \<Longrightarrow> splitCRLF xs = [xs]"
  by (induction xs rule: splitCRLF.induct) auto

lemma splitCRLF_line: "CR \<notin> set xs \<Longrightarrow> splitCRLF (xs @ CR # LF # ys) = xs # splitCRLF ys"
  by (induction xs rule: splitCRLF.induct) auto

lemma splitCRLF_not_Nil: "splitCRLF s \<noteq> []"
  by (cases s rule: splitCRLF.cases) (auto split: list.splits)

lemma wrapLoop_acc: "wrapLoop out s = out @ wrapLoop [] s"
proof (induction "length s" arbitrary: out s rule: less_induct)
  case less
  show ?case
  proof (cases "76 < length s")
    case True
    then have lt: "length (drop 76 s) < length s" by simp
    have "wrapLoop out s = wrapLoop (out @ take 76 s @ CRLF) (drop 76 s)"
      using True by (simp add: wrapLoop.simps[of out s])
    also have "\<dots> = (out @ take 76 s @ CRLF) @ wrapLoop [] (drop 76 s)"
      by (rule less[OF lt])
    also have "\<dots> = out @ wrapLoop ([] @ take 76 s @ CRLF) (drop 76 s)"
      using less[OF lt, of "[] @ take 76 s @ CRLF"] by simp
    also have "\<dots> = out @ wrapLoop [] s"
      using True by (simp add: wrapLoop.simps[of "[]" s])
    finally show ?thesis .
  next
    case False
    then show ?thesis by (simp add: wrapLoop.simps[of out s] wrapLoop.simps[of "[]" s])
  qed
qed

lemma wrapLoop_long:
  "76 < length s \<Longrightarrow> wrapLoop [] s = take 76 s @ CRLF @ wrapLoop [] (drop 76 s)"
  using wrapLoop_acc[of "take 76 s @ CRLF" "drop 76 s"] by (simp add: wrapLoop.simps[of "[]" s])

lemma wrapLoop_short: "length s \<le> 76 \<Longrightarrow> wrapLoop [] s = s"
  by (simp add: wrapLoop.simps[of "[]" s])

lemma wrapLoop_lines:
  "CR \<notin> set s \<Longrightarrow>
     concat (splitCRLF (wrapLoop [] s)) = s
     \<and> list_all (\<lambda>l. length l \<le> 76) (splitCRLF (wrapLoop [] s))
     \<and> list_all (\<lambda>l. length l = 76) (butlast (splitCRLF (wrapLoop [] s)))"
proof (induction "length s" arbitrary: s rule: less_induct)
  case less
  show ?case
  proof (cases "76 < length s")
    case True
    then have lt: "length (drop 76 s) < length s" by simp
    have nocr: "CR \<notin> set (take 76 s)" "CR \<notin> set (drop 76 s)"
      using less.prems by (auto dest: in_set_takeD in_set_dropD)
    have sp: "splitCRLF (wrapLoop [] s) = take 76 s # splitCRLF (wrapLoop [] (drop 76 s))"
      using True nocr by (simp add: wrapLoop_long splitCRLF_line)
    from less.hyps[OF lt nocr(2)] sp splitCRLF_not_Nil True show ?thesis by simp
  next
    case False
    then show ?thesis using less.prems by (simp add: wrapLoop_short splitCRLF_noCR)
  qed
qed

lemma StdEncode_noCR: "CR \<notin> set (StdEncodeToString b)"
  using base64Encode_set[of encodeStd True b] by (auto simp: StdEncodeToString_def encodeStd_def)

text \<open>
  C8. The payload of an attachment part is \<^verbatim>\<open>wrapBase64\<close> of the attachment's bytes
  (the bytes given in \<open>Data\<close>, or read from \<open>Path\<close> when \<open>Data\<close> is empty), followed by a
  CRLF that ends the part. Cut at its CRLFs, the payload gives back the standard base64
  encoding of the bytes; every line has at most 76 characters, and every line but the
  last has exactly 76.
\<close>

theorem attachment_payload_wrapped:
  assumes "resolveAttachment env a = Inr a'"
  shows "(if length (Data a) = 0 then ReadFile env (Path a) = Some (Data a') else Data a' = Data a)
         \<and> suffix (wrapBase64 (Data a') @ CRLF) (writeAttachment b mixedBoundary a')
         \<and> concat (splitCRLF (wrapBase64 (Data a'))) = StdEncodeToString (Data a')
         \<and> list_all (\<lambda>l. length l \<le> 76) (splitCRLF (wrapBase64 (Data a')))
         \<and> list_all (\<lambda>l. length l = 76) (butlast (splitCRLF (wrapBase64 (Data a'))))"
proof -
  have data: "if length (Data a) = 0 then ReadFile env (Path a) = Some (Data a')
              else Data a' = Data a"
    using assms by (auto simp: resolveAttachment_def Let_def split: if_splits option.splits)
  have suf: "suffix (wrapBase64 (Data a') @ CRLF) (writeAttachment b mixedBoundary a')"
    unfolding writeAttachment_def suffix_def by (rule exI[of _ "b @ CRLF @ ''--'' @ mixedBoundary @ CRLF
       @ ''Content-Type: '' @ MIMEType a' @ CRLF
       @ ''Content-Transfer-Encoding: base64'' @ CRLF
       @ ''Content-Disposition: attachment; '' @ contentDispositionFilename (Filename a')
       @ CRLF @ CRLF"]) simp
  from data suf wrapLoop_lines[OF StdEncode_noCR, of "Data a'"] show ?thesis
    unfolding wrapBase64_def by blast
qed

theorem attachment_payload_wrapped_witness:
  "resolveAttachment env0 att1 = Inr (att1\<lparr>Filename := ''a.bin'', MIMEType := ''application/octet-stream'', Data := ''xyz''\<rparr>)
   \<and> suffix (wrapBase64 ''xyz'' @ CRLF)
        (writeAttachment [] ''B'' (att1\<lparr>Filename := ''a.bin'', MIMEType := ''application/octet-stream'', Data := ''xyz''\<rparr>))
   \<and> concat (splitCRLF (wrapBase64 ''xyz'')) = StdEncodeToString ''xyz''"
proof -
  have r: "resolveAttachment env0 att1
           = Inr (att1\<lparr>Filename := ''a.bin'', MIMEType := ''application/octet-stream'', Data := ''xyz''\<rparr>)"
    by (simp add: resolveAttachment_def env0_def att1_def Base_def Ext_def lastElem_def
        stripSlashes_def Let_def)
  from attachment_payload_wrapped[OF r, of "[]" "''B''"] r show ?thesis by simp
qed

subsection \<open>The header block\<close>

lemma validateHeaderValue_iff:
  "validateHeaderValue v = None \<longleftrightarrow> \<not> hasNewline v"
  by (simp add: validateHeaderValue_def hasNewline_def)

lemma validateHeaderValue_eq:
  "validateHeaderValue v =
     (if hasNewline v then Some ''header value contains newline'' else None)"
  by (simp add: validateHeaderValue_def hasNewline_def)

lemma validateAddresses_eq:
  "validateAddresses addrs =
     (if list_ex hasNewline addrs then Some (InvalidHeaderValue ''address'') else None)"
  by (induction addrs) (auto simp: validateHeaderValue_def hasNewline_def)

lemma optionalHeader_eq:
  "optionalHeader b name v =
     (if TrimSpace v \<noteq> [] \<and> hasNewline v then Inl (InvalidHeaderValue name)
      else Inr (b @ optionalLine name v))"
  by (simp add: optionalHeader_def validateHeaderValue_def hasNewline_def optionalLine_def
      headerLine_def writeHeader_def)

lemma additionalHeaders_eq:
  "additionalHeaders b kvs =
     (case List.find (\<lambda>kv. emitted kv \<and> hasNewline (snd kv)) kvs of
        Some kv \<Rightarrow> Inl (InvalidHeaderValue (''header '' @ fst kv))
      | None \<Rightarrow> Inr (b @ concat (map (\<lambda>kv. headerLine (fst kv) (snd kv)) (filter emitted kvs))))"
proof (induction b kvs rule: additionalHeaders.induct)
  case (1 b)
  show ?case by simp
next
  case (2 b k v kvs)
  have e: "emitted (k, v) = (TrimSpace k \<noteq> [] \<and> TrimSpace v \<noteq> [])"
    by (simp add: emitted_def)
  show ?case
  proof (cases "emitted (k, v)")
    case True
    show ?thesis
    proof (cases "hasNewline v")
      case True
      with \<open>emitted (k, v)\<close> show ?thesis
        using e by (simp add: validateHeaderValue_eq)
    next
      case False
      have step: "additionalHeaders b ((k, v) # kvs) = additionalHeaders (writeHeader b k v) kvs"
        using False \<open>emitted (k, v)\<close> e by (simp add: validateHeaderValue_eq)
      have wh: "writeHeader b k v = b @ headerLine k v"
        by (simp add: writeHeader_def headerLine_def)
      have ih: "additionalHeaders (writeHeader b k v) kvs =
        (case List.find (\<lambda>kv. emitted kv \<and> hasNewline (snd kv)) kvs of
           Some kv \<Rightarrow> Inl (InvalidHeaderValue (''header '' @ fst kv))
         | None \<Rightarrow> Inr (writeHeader b k v
             @ concat (map (\<lambda>kv. headerLine (fst kv) (snd kv)) (filter emitted kvs))))"
        using 2(1) False \<open>emitted (k, v)\<close> e by (simp add: validateHeaderValue_eq)
      show ?thesis
        unfolding step ih using False wh \<open>emitted (k, v)\<close>
        by (simp split: option.split)
    qed
  next
    case False
    have step: "additionalHeaders b ((k, v) # kvs) = additionalHeaders b kvs"
      using False e by auto
    have ih: "additionalHeaders b kvs =
        (case List.find (\<lambda>kv. emitted kv \<and> hasNewline (snd kv)) kvs of
           Some kv \<Rightarrow> Inl (InvalidHeaderValue (''header '' @ fst kv))
         | None \<Rightarrow> Inr (b
             @ concat (map (\<lambda>kv. headerLine (fst kv) (snd kv)) (filter emitted kvs))))"
      using 2(2) False e by blast
    show ?thesis
      unfolding step ih using False by (simp split: option.split)
  qed
qed

lemma hasHeader_eq: "hasHeader hs name = list_ex (\<lambda>kv. EqualFold (fst kv) name) hs"
  by (induction hs name rule: hasHeader.induct) auto

lemma randRead_eq:
  "randRead n rnd = (if length rnd < n then Inl RandomSourceFailure else Inr (take n rnd, drop n rnd))"
  by (simp add: randRead_def)

lemma asciiFoldEq_d: "asciiFoldEq b (CHR ''d'') = asciiFoldEq b (CHR ''D'')"
proof -
  have d: "(of_char (CHR ''d'') :: nat) = 100" and D: "(of_char (CHR ''D'') :: nat) = 68" by simp_all
  have "b = CHR ''d'' \<longleftrightarrow> (of_char b :: nat) = 100" using of_char_eq_iff_nat[of b "CHR ''d''"] by simp
  moreover have "b = CHR ''D'' \<longleftrightarrow> (of_char b :: nat) = 68" using of_char_eq_iff_nat[of b "CHR ''D''"] by simp
  ultimately show ?thesis
    by (auto simp: asciiFoldEq_def Let_def min_def max_def less_eq_char_def less_char_def)
qed

lemma EqualFold_Nil_left: "EqualFold [] t = (t = [])"
  by (cases t) (simp_all add: EqualFold.simps[of "[]"])

lemma EqualFold_Nil_right: "EqualFold s [] = (s = [])"
  by (cases s) (simp_all add: EqualFold.simps[of _ "[]"])

lemma EqualFold_Cons:
  "EqualFold (b # bs) (c # cs) =
     (if CHR 0x80 \<le> c then False
      else if b < CHR 0x80 then asciiFoldEq b c \<and> EqualFold bs cs
      else if (c = CHR ''s'' \<or> c = CHR ''S'') \<and> b = CHR 0xC5 \<and> prefix [CHR 0xBF] bs
        then EqualFold (drop 1 bs) cs
      else if (c = CHR ''k'' \<or> c = CHR ''K'') \<and> b = CHR 0xE2 \<and> prefix [CHR 0x84, CHR 0xAA] bs
        then EqualFold (drop 2 bs) cs
      else False)"
  by (subst EqualFold.simps) auto

lemma EqualFold_last_d:
  "EqualFold s (t @ [CHR ''d'']) = EqualFold s (t @ [CHR ''D''])"
proof (induction t arbitrary: s)
  case Nil
  show ?case
    by (cases s) (auto simp: EqualFold_Cons EqualFold_Nil_left EqualFold_Nil_right asciiFoldEq_d)
next
  case (Cons x t)
  show ?case
    by (cases s) (auto simp: EqualFold_Cons EqualFold_Nil_left Cons.IH)
qed

lemma EqualFold_Message_Id: "EqualFold k ''Message-Id'' = EqualFold k ''Message-ID''"
  using EqualFold_last_d[of k "''Message-I''"] by simp

lemma EqualFold_ascii:
  "isASCII s \<Longrightarrow> isASCII t \<Longrightarrow> EqualFold s t = list_all2 asciiFoldEq s t"
proof (induction s arbitrary: t)
  case Nil
  then show ?case by (simp add: EqualFold_Nil_left)
next
  case (Cons b s)
  show ?case
  proof (cases t)
    case Nil
    then show ?thesis by (simp add: EqualFold_Nil_right)
  next
    case (Cons c t')
    with Cons.prems Cons.IH[of t'] show ?thesis
      by (auto simp: EqualFold_Cons split: if_splits)
  qed
qed

lemma messageIDHeader_eq:
  "messageIDHeader env rnd b opts =
     (if suppliedMessageID opts then Inr (b, rnd)
      else if length rnd < 16 then Inl RandomSourceFailure
      else Inr (b @ headerLine ''Message-ID'' (generatedMessageID env rnd opts), drop 16 rnd))"
  by (simp add: messageIDHeader_def suppliedMessageID_def hasHeader_eq EqualFold_Message_Id
      randomMessageID_def randRead_def generatedMessageID_def writeHeader_def headerLine_def Let_def)

lemma writeHeaders_eq:
  "writeHeaders env rnd addrs opts =
     (if list_ex hasNewline addrs then Inl (InvalidHeaderValue ''address'')
      else if TrimSpace (ReplyTo opts) \<noteq> [] \<and> hasNewline (ReplyTo opts)
        then Inl (InvalidHeaderValue ''Reply-To'')
      else if hasNewline (Subject opts) then Inl (InvalidHeaderValue ''Subject'')
      else if \<not> suppliedMessageID opts \<and> length rnd < 16 then Inl RandomSourceFailure
      else if TrimSpace (InReplyTo opts) \<noteq> [] \<and> hasNewline (InReplyTo opts)
        then Inl (InvalidHeaderValue ''In-Reply-To'')
      else if TrimSpace (References opts) \<noteq> [] \<and> hasNewline (References opts)
        then Inl (InvalidHeaderValue ''References'')
      else (case List.find (\<lambda>kv. emitted kv \<and> hasNewline (snd kv)) (AdditionalHeaders opts) of
              Some kv \<Rightarrow> Inl (InvalidHeaderValue (''header '' @ fst kv))
            | None \<Rightarrow>
                Inr (headerBlock env rnd opts, tapeAfterHeaders rnd opts)))"
  unfolding writeHeaders_def validateAddresses_eq optionalHeader_eq validateHeaderValue_eq
    messageIDHeader_eq additionalHeaders_eq Let_def
  by (simp add: headerBlock_def headersBeforeMessageID_def headersBeforeSubject_def
      headersAfterMessageID_def
      tapeAfterHeaders_def writeHeader_def headerLine_def split: option.split)

subsection \<open>The body and the attachments\<close>

lemma randomBoundary_eq:
  "randomBoundary rnd =
     (if length rnd < 18 then Inl RandomSourceFailure else Inr (boundaryOf rnd, drop 18 rnd))"
  by (simp add: randomBoundary_def randRead_def boundaryOf_def)

lemma writeBodyWithTrailingCRLF_eq:
  "writeBodyWithTrailingCRLF b body = b @ body @ (if suffix CRLF body then [] else CRLF)"
  by (simp add: writeBodyWithTrailingCRLF_def)

lemma writeTextPart_eq:
  "writeTextPart b boundary contentType body =
     b @ ''--'' @ boundary @ CRLF @ textEntity contentType body"
  by (simp add: writeTextPart_def writeBodyWithTrailingCRLF_eq textEntity_def)

lemma writeBodyNoAttachments_eq:
  "writeBodyNoAttachments rnd b plain html =
     (if TrimSpace plain \<noteq> [] \<and> TrimSpace html \<noteq> [] \<and> length rnd < 18
        then Inl RandomSourceFailure
      else Inr (b @ bodyEntity (boundaryOf rnd) plain html))"
  by (simp add: writeBodyNoAttachments_def randomBoundary_eq writeTextPart_eq Let_def
      writeBodyWithTrailingCRLF_eq bodyEntity_def alternativeEntity_def textEntity_def
      writeHeader_def)

lemma writeBodyPart_eq:
  "writeBodyPart rnd b plain html =
     (if TrimSpace plain \<noteq> [] \<and> TrimSpace html \<noteq> [] \<and> length rnd < 18
        then Inl RandomSourceFailure
      else Inr (b @ bodyEntity (boundaryOf rnd) plain html))"
  by (simp add: writeBodyPart_def randomBoundary_eq writeTextPart_eq Let_def
      writeBodyWithTrailingCRLF_eq bodyEntity_def alternativeEntity_def textEntity_def)

lemma resolveAttachment_eq:
  "resolveAttachment env a =
     (if unreadable env a then Inl (AttachmentUnreadable (Path a)) else Inr (resolved env a))"
  by (cases a) (auto simp: resolveAttachment_def unreadable_def resolved_def Let_def split: option.splits)

lemma writeAttachment_eq:
  "writeAttachment b mixedBoundary a = b @ CRLF @ ''--'' @ mixedBoundary @ CRLF @ attachmentEntity a"
  by (simp add: writeAttachment_def attachmentEntity_def)

lemma writeAttachments_eq:
  "writeAttachments env mixedBoundary b atts =
     (case List.find (unreadable env) atts of
        Some a \<Rightarrow> Inl (AttachmentUnreadable (Path a))
      | None \<Rightarrow>
          Inr (b @ concat (map (\<lambda>a. CRLF @ ''--'' @ mixedBoundary @ CRLF @ attachmentEntity a)
                            (map (resolved env) atts))))"
proof (induction atts arbitrary: b)
  case Nil
  show ?case by simp
next
  case (Cons a atts)
  show ?case
  proof (cases "unreadable env a")
    case True
    then show ?thesis by (simp add: resolveAttachment_eq)
  next
    case False
    have step: "writeAttachments env mixedBoundary b (a # atts)
          = writeAttachments env mixedBoundary (writeAttachment b mixedBoundary (resolved env a)) atts"
      using False by (simp add: resolveAttachment_eq)
    show ?thesis
      unfolding step Cons.IH using False
      by (simp add: writeAttachment_eq split: option.split)
  qed
qed

lemma writeBody_eq:
  "writeBody env rnd b opts =
     (if TrimSpace (normalizeCRLF (Body opts)) \<noteq> [] \<and> TrimSpace (normalizeCRLF (BodyHTML opts)) \<noteq> []
         \<and> length rnd < (if Attachments opts = [] then 18 else 36)
        then Inl RandomSourceFailure
      else if Attachments opts \<noteq> [] \<and> length rnd < 18 then Inl RandomSourceFailure
      else (case List.find (unreadable env) (Attachments opts) of
              Some a \<Rightarrow> Inl (AttachmentUnreadable (Path a))
            | None \<Rightarrow> Inr (b @ messageEntity env rnd opts)))"
  unfolding writeBody_def writeBodyNoAttachments_eq writeBodyPart_eq randomBoundary_eq
    writeAttachments_eq Let_def
  by (auto simp: messageEntity_def mixedEntity_def writeHeader_def split: option.split)

subsection \<open>Success and failure of the whole function\<close>

lemma checkRequired_eq:
  "checkRequired opts =
     (if TrimSpace (From opts) = [] then Some (MissingField ''From'')
      else if To opts = [] then Some (MissingField ''To'')
      else if TrimSpace (Subject opts) = [] then Some (MissingField ''Subject'')
      else if hasNewline (From opts) then Some (InvalidHeaderValue ''From'')
      else None)"
  by (simp add: checkRequired_def validateHeaderValue_eq)

lemma writeHeaders_Inr_iff:
  "writeHeaders env rnd (To opts @ Cc opts @ Bcc opts) opts = Inr (b, rnd') \<longleftrightarrow>
     \<not> list_ex hasNewline (To opts @ Cc opts @ Bcc opts)
     \<and> \<not> writtenAndBroken (ReplyTo opts)
     \<and> \<not> hasNewline (Subject opts)
     \<and> (suppliedMessageID opts \<or> 16 \<le> length rnd)
     \<and> \<not> writtenAndBroken (InReplyTo opts)
     \<and> \<not> writtenAndBroken (References opts)
     \<and> \<not> list_ex (\<lambda>kv. emitted kv \<and> hasNewline (snd kv)) (AdditionalHeaders opts)
     \<and> b = headerBlock env rnd opts \<and> rnd' = tapeAfterHeaders rnd opts"
  unfolding writeHeaders_eq writtenAndBroken_def
  by (auto simp: find_case_Inr_iff)

lemma writeBody_Inr_iff:
  "writeBody env rnd b opts = Inr out \<longleftrightarrow>
     (if Attachments opts = [] then 0 else 18) + (if bothBodies opts then 18 else 0) \<le> length rnd
     \<and> attachmentsReadable env opts
     \<and> out = b @ messageEntity env rnd opts"
  unfolding writeBody_eq bothBodies_def attachmentsReadable_def
  by (auto simp: find_case_Inr_iff)

lemma buildRFC822_Inr_iff:
  "buildRFC822 env rnd opts = Inr out \<longleftrightarrow>
     requiredPresent opts \<and> headerValuesClean opts \<and> randomNeeded opts \<le> length rnd
     \<and> attachmentsReadable env opts
     \<and> out = headerBlock env rnd opts @ messageEntity env (tapeAfterHeaders rnd opts) opts"
proof (cases "checkRequired opts")
  case None
  then have req: "requiredPresent opts" "\<not> hasNewline (From opts)"
    by (auto simp: checkRequired_eq requiredPresent_def split: if_splits)
  show ?thesis
  proof (cases "writeHeaders env rnd (To opts @ Cc opts @ Bcc opts) opts")
    case (Inl e)
    have "\<not> (headerValuesClean opts \<and> randomNeeded opts \<le> length rnd)"
      using writeHeaders_Inr_iff[of env rnd opts "headerBlock env rnd opts" "tapeAfterHeaders rnd opts"] Inl
      by (auto simp: headerValuesClean_def randomNeeded_def)
    then show ?thesis using None Inl by (auto simp: buildRFC822_def encodeFrom_def)
  next
    case (Inr p)
    obtain b rnd' where p: "p = (b, rnd')" by (cases p)
    from Inr p have h: "writeHeaders env rnd (To opts @ Cc opts @ Bcc opts) opts = Inr (b, rnd')" by simp
    note hh = h[unfolded writeHeaders_Inr_iff]
    have "buildRFC822 env rnd opts = writeBody env rnd' b opts"
      using None h by (simp add: buildRFC822_def encodeFrom_def)
    then show ?thesis
      using hh req
      by (auto simp: writeBody_Inr_iff headerValuesClean_def randomNeeded_def tapeAfterHeaders_def)
  qed
next
  case (Some e)
  then have "\<not> (requiredPresent opts \<and> headerValuesClean opts)"
    by (auto simp: checkRequired_eq requiredPresent_def headerValuesClean_def split: if_splits)
  then show ?thesis using Some by (auto simp: buildRFC822_def)
qed

subsection \<open>CR and LF in header values\<close>

text \<open>
  C1, as the claim states it, fails. A Reply-To that consists of a line feed is blank
  after trimming, so it is skipped without validation and the message is encoded. And a
  From with a line break in a request without To addresses is refused as a missing
  field, since the checks for missing fields come first.
\<close>

theorem blank_ReplyTo_with_newline_accepted:
  "LF \<in> set (ReplyTo reqNewlineReplyTo)
   \<and> buildRFC822 env0 rnd0 reqNewlineReplyTo
       = Inr (headerBlock env0 rnd0 reqNewlineReplyTo @ textEntity textPlain ''Hello'')
   \<and> LF \<in> set (From reqNewlineFromNoTo)
   \<and> buildRFC822 env0 rnd0 reqNewlineFromNoTo = Inl (MissingField ''To'')"
proof -
  have c: "requiredPresent reqNewlineReplyTo" "headerValuesClean reqNewlineReplyTo"
      "randomNeeded reqNewlineReplyTo \<le> length rnd0" "attachmentsReadable env0 reqNewlineReplyTo"
    by code_simp+
  have n: "normalizeCRLF (Body reqNewlineReplyTo) = ''Hello''"
      "normalizeCRLF (BodyHTML reqNewlineReplyTo) = []"
      "TrimSpace [] = []" "Attachments reqNewlineReplyTo = []"
      "LF \<in> set (ReplyTo reqNewlineReplyTo)"
    by code_simp+
  have e: "messageEntity env0 (tapeAfterHeaders rnd0 reqNewlineReplyTo) reqNewlineReplyTo
      = textEntity textPlain ''Hello''"
    by (simp add: messageEntity_def bodyEntity_def n)
  have f: "LF \<in> set (From reqNewlineFromNoTo)" "TrimSpace (From reqNewlineFromNoTo) \<noteq> []"
      "To reqNewlineFromNoTo = []"
    by code_simp+
  then have "buildRFC822 env0 rnd0 reqNewlineFromNoTo = Inl (MissingField ''To'')"
    by (simp add: buildRFC822_def checkRequired_eq)
  with c e n(5) f(1) show ?thesis by (simp add: buildRFC822_Inr_iff)
qed

text \<open>
  C1, amended. Let From and Subject be non-blank and the To list non-empty. If a header
  value that the encoder writes contains CR or LF (From, an address of To, Cc or Bcc,
  Subject; Reply-To, In-Reply-To or References when non-blank after trimming; the value
  of an additional header whose key and value are non-blank after trimming), then the
  encoder returns an error and no bytes. The error is InvalidHeaderValue, except that a
  failure to draw the 16 random bytes of the Message-ID is reported first when From, the
  addresses, Reply-To and Subject are clean.
\<close>

theorem newline_in_written_value_fails:
  assumes "requiredPresent opts" and "\<not> headerValuesClean opts"
  shows "(\<exists>name. buildRFC822 env rnd opts = Inl (InvalidHeaderValue name))
         \<or> (buildRFC822 env rnd opts = Inl RandomSourceFailure
            \<and> \<not> suppliedMessageID opts \<and> length rnd < 16
            \<and> \<not> hasNewline (From opts)
            \<and> \<not> list_ex hasNewline (To opts @ Cc opts @ Bcc opts)
            \<and> \<not> writtenAndBroken (ReplyTo opts)
            \<and> \<not> hasNewline (Subject opts))"
proof (cases "hasNewline (From opts)")
  case True
  then show ?thesis using assms(1)
    by (simp add: buildRFC822_def checkRequired_eq requiredPresent_def)
next
  case False
  then have b: "buildRFC822 env rnd opts = encodeFrom env rnd (To opts @ Cc opts @ Bcc opts) opts"
    using assms(1) by (simp add: buildRFC822_def checkRequired_eq requiredPresent_def)
  show ?thesis
  proof (cases "List.find (\<lambda>kv. emitted kv \<and> hasNewline (snd kv)) (AdditionalHeaders opts)")
    case None
    then have "\<not> list_ex (\<lambda>kv. emitted kv \<and> hasNewline (snd kv)) (AdditionalHeaders opts)"
      by (simp add: find_None_list_ex)
    with assms(2) False None show ?thesis
      unfolding b encodeFrom_def writeHeaders_eq headerValuesClean_def writtenAndBroken_def
      by auto
  next
    case (Some kv)
    with False show ?thesis
      unfolding b encodeFrom_def writeHeaders_eq headerValuesClean_def writtenAndBroken_def
      by auto
  qed
qed

theorem newline_in_written_value_fails_witness:
  "requiredPresent reqNewlineSubject \<and> \<not> headerValuesClean reqNewlineSubject
   \<and> \<not> length rnd0 < 16
   \<and> (\<exists>name. buildRFC822 env0 rnd0 reqNewlineSubject = Inl (InvalidHeaderValue name))"
proof -
  have c: "requiredPresent reqNewlineSubject" "\<not> headerValuesClean reqNewlineSubject"
      "\<not> length rnd0 < 16"
    by code_simp+
  from newline_in_written_value_fails[OF c(1,2), of env0 rnd0] c show ?thesis by blast
qed

subsection \<open>Header names\<close>

text \<open>
  C10. Header names are not validated. Let a request pass every check of the encoder
  (required fields present, written header values free of CR and LF), with enough random
  bytes and readable attachments, and let \<open>AdditionalHeaders\<close> hold an entry whose key
  contains CR or LF and whose key and value are non-blank after trimming. Then the
  encoder returns a message, and the header block of that message contains the line
  \<^verbatim>\<open>key: value\<close> with the bytes of the key as they are.
\<close>

theorem header_names_not_validated:
  assumes "requiredPresent opts" and "headerValuesClean opts"
    and "randomNeeded opts \<le> length rnd" and "attachmentsReadable env opts"
    and "(k, v) \<in> set (AdditionalHeaders opts)"
    and "TrimSpace k \<noteq> []" and "TrimSpace v \<noteq> []" and "hasNewline k"
  shows "buildRFC822 env rnd opts
           = Inr (headerBlock env rnd opts @ messageEntity env (tapeAfterHeaders rnd opts) opts)
         \<and> (\<exists>pre post. headerBlock env rnd opts = pre @ k @ '': '' @ v @ CRLF @ post)"
proof -
  have ok: "buildRFC822 env rnd opts
      = Inr (headerBlock env rnd opts @ messageEntity env (tapeAfterHeaders rnd opts) opts)"
    using assms(1-4) by (simp add: buildRFC822_Inr_iff)
  have "(k, v) \<in> set (filter emitted (AdditionalHeaders opts))"
    using assms(5-7) by (simp add: emitted_def)
  from concat_map_member[OF this, of "\<lambda>kv. headerLine (fst kv) (snd kv)"]
  obtain p q where pq: "concat (map (\<lambda>kv. headerLine (fst kv) (snd kv))
      (filter emitted (AdditionalHeaders opts))) = p @ headerLine k v @ q"
    by auto
  have "headerBlock env rnd opts
      = (headersBeforeMessageID env opts
          @ (if suppliedMessageID opts then []
             else headerLine ''Message-ID'' (generatedMessageID env rnd opts))
          @ headerLine ''MIME-Version'' ''1.0''
          @ optionalLine ''In-Reply-To'' (InReplyTo opts)
          @ optionalLine ''References'' (References opts) @ p)
        @ k @ '': '' @ v @ CRLF @ q"
    unfolding headerBlock_def headersAfterMessageID_def pq by (simp add: headerLine_def)
  with ok show ?thesis by blast
qed

theorem header_names_not_validated_witness:
  "hasNewline (''X-A'' @ CRLF @ ''Bcc'')
   \<and> buildRFC822 env0 rnd0 reqNewlineKey
         = Inr (headerBlock env0 rnd0 reqNewlineKey
                @ messageEntity env0 (tapeAfterHeaders rnd0 reqNewlineKey) reqNewlineKey)
   \<and> (\<exists>pre post. headerBlock env0 rnd0 reqNewlineKey
          = pre @ (''X-A'' @ CRLF @ ''Bcc'') @ '': '' @ ''x@y.z'' @ CRLF @ post)"
proof -
  have c: "requiredPresent reqNewlineKey" "headerValuesClean reqNewlineKey"
      "randomNeeded reqNewlineKey \<le> length rnd0" "attachmentsReadable env0 reqNewlineKey"
      "(''X-A'' @ CRLF @ ''Bcc'', ''x@y.z'') \<in> set (AdditionalHeaders reqNewlineKey)"
      "TrimSpace (''X-A'' @ CRLF @ ''Bcc'') \<noteq> []" "TrimSpace ''x@y.z'' \<noteq> []"
      "hasNewline (''X-A'' @ CRLF @ ''Bcc'')"
    by code_simp+
  from header_names_not_validated[OF c] c(8) show ?thesis by blast
qed

subsection \<open>The shape of the body\<close>

text \<open>
  C2. When \<^const>\<open>buildRFC822\<close> returns a message, the message is the header block
  followed by a body whose shape depends only on which of the two normalized bodies are
  non-blank and on whether there are attachments. Without attachments: both bodies
  non-blank give \<^verbatim>\<open>multipart/alternative\<close> with one boundary, the plain part first and
  the HTML part second, both 7bit; only the HTML body non-blank gives a single
  \<^verbatim>\<open>text/html\<close> part; otherwise a single \<^verbatim>\<open>text/plain\<close> part. With attachments:
  \<^verbatim>\<open>multipart/mixed\<close>, whose first part is built by the same three-way rule (with a
  boundary drawn from the next 18 random bytes when both bodies are non-blank), followed
  by one base64 part per attachment in the order of the input.
\<close>

theorem body_shape_rule:
  assumes "buildRFC822 env rnd opts = Inr out"
  shows "out = headerBlock env rnd opts
           @ (let r = tapeAfterHeaders rnd opts;
                  plain = normalizeCRLF (Body opts);
                  html = normalizeCRLF (BodyHTML opts)
              in if Attachments opts = [] then
                   (if TrimSpace plain \<noteq> [] \<and> TrimSpace html \<noteq> []
                      then alternativeEntity (boundaryOf r) plain html
                    else if TrimSpace html \<noteq> [] then textEntity textHTML html
                    else textEntity textPlain plain)
                 else
                   ''Content-Type: multipart/mixed; boundary='' @ Quote (boundaryOf r) @ CRLF
                   @ CRLF
                   @ ''--'' @ boundaryOf r @ CRLF
                   @ (if TrimSpace plain \<noteq> [] \<and> TrimSpace html \<noteq> []
                        then alternativeEntity (boundaryOf (drop 18 r)) plain html
                      else if TrimSpace html \<noteq> [] then textEntity textHTML html
                      else textEntity textPlain plain)
                   @ concat (map (\<lambda>a. CRLF @ ''--'' @ boundaryOf r @ CRLF
                                       @ attachmentEntity (resolved env a))
                              (Attachments opts))
                   @ ''--'' @ boundaryOf r @ ''--'' @ CRLF)"
  using assms unfolding buildRFC822_Inr_iff
  by (simp add: messageEntity_def mixedEntity_def bodyEntity_def Let_def comp_def)

theorem body_shape_rule_witness:
  "buildRFC822 env0 rnd0 req4
     = Inr (headerBlock env0 rnd0 req4
            @ ''Content-Type: multipart/mixed; boundary='' @ Quote (boundaryOf (drop 16 rnd0)) @ CRLF
            @ CRLF
            @ ''--'' @ boundaryOf (drop 16 rnd0) @ CRLF
            @ alternativeEntity (boundaryOf (drop 34 rnd0)) ''Plain'' ''<p>HTML</p>''
            @ CRLF @ ''--'' @ boundaryOf (drop 16 rnd0) @ CRLF @ attachmentEntity att0
            @ CRLF @ ''--'' @ boundaryOf (drop 16 rnd0) @ CRLF
            @ attachmentEntity (att1\<lparr>Filename := ''a.bin'', MIMEType := ''application/octet-stream'', Data := ''xyz''\<rparr>)
            @ ''--'' @ boundaryOf (drop 16 rnd0) @ ''--'' @ CRLF)"
proof -
  have c: "requiredPresent req4" "headerValuesClean req4" "randomNeeded req4 \<le> length rnd0"
      "attachmentsReadable env0 req4"
    by code_simp+
  then obtain out where h: "buildRFC822 env0 rnd0 req4 = Inr out"
    by (simp add: buildRFC822_Inr_iff)
  have e: "tapeAfterHeaders rnd0 req4 = drop 16 rnd0" "Attachments req4 = [att0, att1]"
      "normalizeCRLF (Body req4) = ''Plain''" "normalizeCRLF (BodyHTML req4) = ''<p>HTML</p>''"
      "TrimSpace ''Plain'' \<noteq> []" "TrimSpace ''<p>HTML</p>'' \<noteq> []"
      "resolved env0 att0 = att0"
      "resolved env0 att1 = att1\<lparr>Filename := ''a.bin'', MIMEType := ''application/octet-stream'', Data := ''xyz''\<rparr>"
    by code_simp+
  show ?thesis
    using body_shape_rule[OF h] h by (simp add: e Let_def)
qed

subsection \<open>Required fields\<close>

text \<open>
  C4, as the claim states it, fails: a request whose only To address is a single space
  is encoded. The To list is checked for being empty; its addresses are not trimmed.
\<close>

theorem blank_To_address_accepted:
  "buildRFC822 env0 rnd0 reqBlankTo
     = Inr (headerBlock env0 rnd0 reqBlankTo @ textEntity textPlain ''Hello'')
   \<and> To reqBlankTo = ['' ''] \<and> TrimSpace '' '' = []"
proof -
  have c: "requiredPresent reqBlankTo" "headerValuesClean reqBlankTo"
      "randomNeeded reqBlankTo \<le> length rnd0" "attachmentsReadable env0 reqBlankTo"
    by code_simp+
  have n: "normalizeCRLF (Body reqBlankTo) = ''Hello''" "normalizeCRLF (BodyHTML reqBlankTo) = []"
      "TrimSpace [] = []" "Attachments reqBlankTo = []"
    by code_simp+
  have e: "messageEntity env0 (tapeAfterHeaders rnd0 reqBlankTo) reqBlankTo = textEntity textPlain ''Hello''"
    by (simp add: messageEntity_def bodyEntity_def n)
  have t: "To reqBlankTo = ['' '']" "TrimSpace '' '' = []" by code_simp+
  show ?thesis using c e t by (simp add: buildRFC822_Inr_iff)
qed

text \<open>
  C4, amended. The encoder returns a MissingField error when From is empty after
  trimming, when the To list is empty, or when Subject is empty after trimming; and
  whenever it returns a message, From and Subject are non-empty after trimming and the
  To list has at least one address.
\<close>

theorem required_fields:
  "(TrimSpace (From opts) = [] \<or> To opts = [] \<or> TrimSpace (Subject opts) = []
      \<longrightarrow> (\<exists>name. buildRFC822 env rnd opts = Inl (MissingField name)))
   \<and> (buildRFC822 env rnd opts = Inr out
      \<longrightarrow> TrimSpace (From opts) \<noteq> [] \<and> To opts \<noteq> [] \<and> TrimSpace (Subject opts) \<noteq> [])"
proof -
  have "\<exists>name. buildRFC822 env rnd opts = Inl (MissingField name)"
    if "TrimSpace (From opts) = [] \<or> To opts = [] \<or> TrimSpace (Subject opts) = []"
    using that by (auto simp: buildRFC822_def checkRequired_eq)
  moreover have "TrimSpace (From opts) \<noteq> [] \<and> To opts \<noteq> [] \<and> TrimSpace (Subject opts) \<noteq> []"
    if "buildRFC822 env rnd opts = Inr out"
    using that by (simp add: buildRFC822_Inr_iff requiredPresent_def)
  ultimately show ?thesis by blast
qed

theorem required_fields_witness:
  "TrimSpace (Subject reqBlankSubject) = []
   \<and> (\<exists>name. buildRFC822 env0 rnd0 reqBlankSubject = Inl (MissingField name))
   \<and> buildRFC822 env0 rnd0 req0 = Inr (headerBlock env0 rnd0 req0 @ textEntity textPlain ''Hello'')
   \<and> TrimSpace (From req0) \<noteq> [] \<and> To req0 \<noteq> [] \<and> TrimSpace (Subject req0) \<noteq> []"
proof -
  have c: "requiredPresent req0" "headerValuesClean req0"
      "randomNeeded req0 \<le> length rnd0" "attachmentsReadable env0 req0"
    by code_simp+
  have n: "normalizeCRLF (Body req0) = ''Hello''" "normalizeCRLF (BodyHTML req0) = []"
      "TrimSpace [] = []" "Attachments req0 = []"
    by code_simp+
  have e: "messageEntity env0 (tapeAfterHeaders rnd0 req0) req0 = textEntity textPlain ''Hello''"
    by (simp add: messageEntity_def bodyEntity_def n)
  have ok: "buildRFC822 env0 rnd0 req0 = Inr (headerBlock env0 rnd0 req0 @ textEntity textPlain ''Hello'')"
    using c e by (simp add: buildRFC822_Inr_iff)
  have b: "TrimSpace (Subject reqBlankSubject) = []"
    by code_simp
  from required_fields[of reqBlankSubject env0 rnd0 "[]"]
    required_fields[of req0 env0 rnd0 "headerBlock env0 rnd0 req0 @ textEntity textPlain ''Hello''"]
    b ok
  show ?thesis by blast
qed

subsection \<open>The Subject header\<close>










subsection \<open>The Message-ID header\<close>

lemma asciiFoldEq_ascii: "asciiFoldEq b c \<Longrightarrow> c < CHR 0x80 \<Longrightarrow> b < CHR 0x80"
  by (auto simp: asciiFoldEq_def Let_def min_def max_def less_eq_char_def less_char_def
      split: if_splits)

lemma list_all2_fold_ascii:
  "list_all2 asciiFoldEq k t \<Longrightarrow> isASCII t \<Longrightarrow> isASCII k"
proof (induction k t rule: list_all2_induct)
  case Nil
  show ?case by simp
next
  case (Cons b k c t)
  then have "c < CHR 0x80" by (simp add: not_le split: if_splits)
  from asciiFoldEq_ascii[OF Cons.hyps(1) this] Cons show ?case
    by (simp add: not_le split: if_splits)
qed

text \<open>
  C6. The encoder generates a Message-ID exactly when no key of \<open>AdditionalHeaders\<close>
  equals \<^verbatim>\<open>Message-ID\<close> under \<^verbatim>\<open>strings.EqualFold\<close>: the two tests of the source, for
  \<^verbatim>\<open>Message-ID\<close> and \<^verbatim>\<open>Message-Id\<close>, amount to this one comparison. In a message that
  the encoder returns, the generated line \<^verbatim>\<open>Message-ID: <...>\<close> stands between Date and
  MIME-Version when there is no such key; when there is one, nothing stands there and no
  random byte is drawn for it. A key that spells \<^verbatim>\<open>Message-ID\<close> in any mix of upper and
  lower case is such a key.
\<close>

theorem message_id_generated_unless_supplied:
  assumes "buildRFC822 env rnd opts = Inr out"
  shows "(\<not> hasHeader (AdditionalHeaders opts) ''Message-ID''
            \<and> \<not> hasHeader (AdditionalHeaders opts) ''Message-Id'')
           = (\<not> list_ex (\<lambda>kv. EqualFold (fst kv) ''Message-ID'') (AdditionalHeaders opts))
         \<and> out = headersBeforeMessageID env opts
             @ (if list_ex (\<lambda>kv. EqualFold (fst kv) ''Message-ID'') (AdditionalHeaders opts)
                then []
                else ''Message-ID: <'' @ RawURLEncodeToString (take 16 rnd) @ ''@''
                     @ messageIDDomain env (From opts) @ ''>'' @ CRLF)
             @ headersAfterMessageID opts
             @ messageEntity env
                 (if list_ex (\<lambda>kv. EqualFold (fst kv) ''Message-ID'') (AdditionalHeaders opts)
                  then rnd else drop 16 rnd) opts
         \<and> (list_ex (\<lambda>kv. list_all2 asciiFoldEq (fst kv) ''Message-ID'') (AdditionalHeaders opts)
              \<longrightarrow> list_ex (\<lambda>kv. EqualFold (fst kv) ''Message-ID'') (AdditionalHeaders opts))"
proof -
  have gate: "(\<not> hasHeader (AdditionalHeaders opts) ''Message-ID''
            \<and> \<not> hasHeader (AdditionalHeaders opts) ''Message-Id'')
           = (\<not> list_ex (\<lambda>kv. EqualFold (fst kv) ''Message-ID'') (AdditionalHeaders opts))"
    by (simp add: hasHeader_eq EqualFold_Message_Id)
  have out: "out = headerBlock env rnd opts @ messageEntity env (tapeAfterHeaders rnd opts) opts"
    using assms by (simp add: buildRFC822_Inr_iff)
  have fold: "EqualFold k ''Message-ID''" if "list_all2 asciiFoldEq k ''Message-ID''" for k
  proof -
    have a: "isASCII ''Message-ID''" by simp
    from list_all2_fold_ascii[OF that a] have "isASCII k" .
    from EqualFold_ascii[OF this a] that show ?thesis by simp
  qed
  have anycase: "list_ex (\<lambda>kv. list_all2 asciiFoldEq (fst kv) ''Message-ID'') (AdditionalHeaders opts)
              \<longrightarrow> list_ex (\<lambda>kv. EqualFold (fst kv) ''Message-ID'') (AdditionalHeaders opts)"
    using fold by (auto simp: list_ex_iff)
  from gate out anycase show ?thesis
    by (simp add: headerBlock_def tapeAfterHeaders_def suppliedMessageID_def
        generatedMessageID_def headerLine_def)
qed

theorem message_id_generated_unless_supplied_witness:
  "buildRFC822 env0 rnd0 reqOwnMessageID
     = Inr (headersBeforeMessageID env0 reqOwnMessageID
            @ headersAfterMessageID reqOwnMessageID
            @ messageEntity env0 rnd0 reqOwnMessageID)
   \<and> list_ex (\<lambda>kv. list_all2 asciiFoldEq (fst kv) ''Message-ID'') (AdditionalHeaders reqOwnMessageID)
   \<and> list_ex (\<lambda>kv. EqualFold (fst kv) ''Message-ID'') (AdditionalHeaders reqOwnMessageID)"
proof -
  have c: "requiredPresent reqOwnMessageID" "headerValuesClean reqOwnMessageID"
      "randomNeeded reqOwnMessageID \<le> length rnd0" "attachmentsReadable env0 reqOwnMessageID"
    by code_simp+
  then obtain out where ok: "buildRFC822 env0 rnd0 reqOwnMessageID = Inr out"
    by (simp add: buildRFC822_Inr_iff)
  have l: "list_ex (\<lambda>kv. list_all2 asciiFoldEq (fst kv) ''Message-ID'') (AdditionalHeaders reqOwnMessageID)"
    by code_simp
  from message_id_generated_unless_supplied[OF ok] ok l show ?thesis by simp
qed

subsection \<open>The file name of an attachment\<close>

lemma ReplaceAll_single:
  "ReplaceAll s [x] new = concat (map (\<lambda>c. if c = x then new else [c]) s)"
proof (induction s)
  case Nil
  show ?case by (subst ReplaceAll.simps) simp
next
  case (Cons c s)
  show ?case using Cons.IH by (subst ReplaceAll.simps) auto
qed

lemma upperhex_not_plus: "n < 16 \<Longrightarrow> upperhex ! n \<noteq> CHR ''+''"
proof -
  assume "n < 16"
  then have "n < length upperhex" by (simp add: upperhex_def)
  then have "upperhex ! n \<in> set upperhex" by (rule nth_mem)
  moreover have "CHR ''+'' \<notin> set upperhex" by (simp add: upperhex_def)
  ultimately show ?thesis by metis
qed

lemma shouldEscape_plus: "shouldEscape (CHR ''+'')" "shouldEscape (CHR '' '')"
  by (simp_all add: shouldEscape_def alnum_def)

lemma upperhex_20: "upperhex ! 2 = CHR ''2''" "upperhex ! 0 = CHR ''0''"
  by (simp_all add: upperhex_def)

lemma replace_plus_escapeByte:
  "concat (map (\<lambda>c. if c = CHR ''+'' then ''%20'' else [c]) (escapeByte c)) = percentByte c"
proof (cases "c = CHR '' ''")
  case True
  then show ?thesis
    by (simp add: escapeByte_def percentByte_def shouldEscape_plus upperhex_20)
next
  case False
  show ?thesis
  proof (cases "shouldEscape c")
    case True
    with False show ?thesis
      by (simp add: escapeByte_def percentByte_def upperhex_not_plus of_char_div_16)
  next
    case False
    then have "c \<noteq> CHR ''+''" using shouldEscape_plus(1) by auto
    with False \<open>c \<noteq> CHR '' ''\<close> show ?thesis
      by (simp add: escapeByte_def percentByte_def)
  qed
qed

lemma rfc5987Encode_eq: "rfc5987Encode s = concat (map percentByte s)"
proof -
  have "concat (map (\<lambda>c. if c = CHR ''+'' then ''%20'' else [c]) (concat (map escapeByte s)))
        = concat (map percentByte s)"
    by (induction s) (simp_all add: replace_plus_escapeByte)
  then show ?thesis by (simp add: rfc5987Encode_def QueryEscape_def ReplaceAll_single)
qed

lemma percentByte_no_plus: "CHR ''+'' \<notin> set (percentByte c)" "CHR '' '' \<notin> set (percentByte c)"
proof -
  have h: "n < 16 \<Longrightarrow> upperhex ! n \<noteq> CHR '' ''" for n
  proof -
    assume "n < 16"
    then have "n < length upperhex" by (simp add: upperhex_def)
    then have "upperhex ! n \<in> set upperhex" by (rule nth_mem)
    moreover have "CHR '' '' \<notin> set upperhex" by (simp add: upperhex_def)
    ultimately show ?thesis by metis
  qed
  show "CHR ''+'' \<notin> set (percentByte c)"
    using shouldEscape_plus(1) upperhex_not_plus[of "of_char c div 16"] upperhex_not_plus[of "of_char c mod 16"]
    by (auto simp: percentByte_def of_char_div_16)
  show "CHR '' '' \<notin> set (percentByte c)"
    using shouldEscape_plus(2) h[of "of_char c div 16"] h[of "of_char c mod 16"]
    by (auto simp: percentByte_def of_char_div_16)
qed

text \<open>
  C7, as the claim states it, fails: for the ASCII file name \<^verbatim>\<open>a"b\<close> the parameter is
  not \<^verbatim>\<open>filename="a"b"\<close>; the verb \<^verbatim>\<open>%q\<close> escapes the double quote.
\<close>

theorem quoted_filename_escapes:
  "TrimSpace nameWithQuote = nameWithQuote \<and> isASCII nameWithQuote
   \<and> contentDispositionFilename nameWithQuote = ''filename='' @ [DQ] @ ''a'' @ [BSL, DQ] @ ''b'' @ [DQ]
   \<and> contentDispositionFilename nameWithQuote \<noteq> ''filename='' @ [DQ] @ nameWithQuote @ [DQ]"
  by code_simp

text \<open>
  C7, amended. With the file name trimmed: a blank name gives the literal
  \<^verbatim>\<open>filename="attachment"\<close>; a non-blank name of ASCII bytes only gives \<^verbatim>\<open>filename=\<close>
  followed by the name as a Go double-quoted string, which is the name between double
  quotes when the name has only printable ASCII characters other than the double
  quote and the backslash; a name with a non-ASCII byte gives \<^verbatim>\<open>filename*=UTF-8''\<close>
  followed by the percent-encoded name, in which neither \<open>+\<close> nor a space occurs and a
  space of the name is \<^verbatim>\<open>%20\<close>.
\<close>

theorem filename_parameter:
  "contentDispositionFilename filename =
     (if TrimSpace filename = [] then ''filename='' @ [DQ] @ ''attachment'' @ [DQ]
      else if isASCII (TrimSpace filename) then ''filename='' @ Quote (TrimSpace filename)
      else ''filename*=UTF-8'' @ [CHR 0x27, CHR 0x27] @ concat (map percentByte (TrimSpace filename)))
   \<and> (list_all plainPrintable (TrimSpace filename)
        \<longrightarrow> Quote (TrimSpace filename) = [DQ] @ TrimSpace filename @ [DQ])
   \<and> CHR ''+'' \<notin> set (concat (map percentByte (TrimSpace filename)))
   \<and> CHR '' '' \<notin> set (concat (map percentByte (TrimSpace filename)))
   \<and> percentByte (CHR '' '') = ''%20''"
proof -
  have a: "contentDispositionFilename filename =
     (if TrimSpace filename = [] then ''filename='' @ [DQ] @ ''attachment'' @ [DQ]
      else if isASCII (TrimSpace filename) then ''filename='' @ Quote (TrimSpace filename)
      else ''filename*=UTF-8'' @ [CHR 0x27, CHR 0x27] @ concat (map percentByte (TrimSpace filename)))"
    by (simp add: contentDispositionFilename_def Let_def rfc5987Encode_eq)
  have b: "CHR ''+'' \<notin> set (concat (map percentByte s))"
      "CHR '' '' \<notin> set (concat (map percentByte s))" for s
    using percentByte_no_plus by auto
  have c: "percentByte (CHR '' '') = ''%20''"
    by (simp add: percentByte_def shouldEscape_plus upperhex_20)
  from a b c Quote_plain[of "TrimSpace filename"] show ?thesis by blast
qed

theorem filename_parameter_witness:
  "list_all plainPrintable (TrimSpace '' x.txt '')
   \<and> contentDispositionFilename '' x.txt '' = ''filename='' @ [DQ] @ ''x.txt'' @ [DQ]
   \<and> contentDispositionFilename nameUTF8
       = ''filename*=UTF-8'' @ [CHR 0x27, CHR 0x27] @ ''Gr%C3%BC%C3%9Fe%201%2B.txt''"
proof -
  have t: "TrimSpace '' x.txt '' = ''x.txt''" "list_all plainPrintable (TrimSpace '' x.txt '')"
      "isASCII ''x.txt''" "TrimSpace nameUTF8 = nameUTF8" "\<not> isASCII nameUTF8"
      "concat (map percentByte nameUTF8) = ''Gr%C3%BC%C3%9Fe%201%2B.txt''" "nameUTF8 \<noteq> []"
    by code_simp+
  from filename_parameter[of "'' x.txt ''"] filename_parameter[of nameUTF8] t
  show ?thesis by simp
qed

subsection \<open>Boundaries\<close>

lemma encodeURL_inj: "i < 64 \<Longrightarrow> j < 64 \<Longrightarrow> encodeURL ! i = encodeURL ! j \<Longrightarrow> i = j"
proof -
  have "distinct encodeURL" "length encodeURL = 64" by (simp_all add: encodeURL_def)
  then show "i < 64 \<Longrightarrow> j < 64 \<Longrightarrow> encodeURL ! i = encodeURL ! j \<Longrightarrow> i = j"
    by (simp add: nth_eq_iff_index_eq)
qed

lemma sextets_decomp:
  fixes v :: nat
  assumes "v < 16777216"
  shows "v = (v div 262144 mod 64) * 262144 + (v div 4096 mod 64) * 4096
             + (v div 64 mod 64) * 64 + v mod 64"
proof -
  define q1 where "q1 = v div 64"
  define q2 where "q2 = q1 div 64"
  define q3 where "q3 = q2 div 64"
  have e: "v div 4096 = q2" "v div 262144 = q3"
    by (simp_all add: q1_def q2_def q3_def div_mult2_eq)
  have 1: "v = q1 * 64 + v mod 64" by (simp add: q1_def)
  have 2: "q1 = q2 * 64 + q1 mod 64" by (simp add: q2_def)
  have 3: "q2 = q3 * 64 + q2 mod 64" by (simp add: q3_def)
  have "q3 < 64" using assms e(2)[symmetric] by simp
  then have 4: "q3 mod 64 = q3" by simp
  show ?thesis
    unfolding e q1_def[symmetric] 4 using 1 2 3 by linarith
qed

lemma base256:
  fixes x c :: nat
  assumes "c < 256"
  shows "(x * 256 + c) div 256 = x" and "(x * 256 + c) mod 256 = c"
  using assms by simp_all

lemma bytes_of_val:
  fixes a b c :: nat
  assumes "b < 256" "c < 256"
  shows "(a * 65536 + b * 256 + c) div 65536 = a"
    and "(a * 65536 + b * 256 + c) div 256 mod 256 = b"
    and "(a * 65536 + b * 256 + c) mod 256 = c"
proof -
  have e: "a * 65536 + b * 256 + c = (a * 256 + b) * 256 + c" by simp
  have d: "(a * 65536 + b * 256 + c) div 256 = a * 256 + b"
    by (subst e) (rule base256(1)[OF assms(2)])
  show "(a * 65536 + b * 256 + c) mod 256 = c"
    by (subst e) (rule base256(2)[OF assms(2)])
  show "(a * 65536 + b * 256 + c) div 256 mod 256 = b"
    by (subst d) (rule base256(2)[OF assms(1)])
  have "(a * 65536 + b * 256 + c) div 65536 = (a * 65536 + b * 256 + c) div 256 div 256"
    by (simp add: div_mult2_eq)
  also have "\<dots> = a"
    by (subst d) (rule base256(1)[OF assms(1)])
  finally show "(a * 65536 + b * 256 + c) div 65536 = a" .
qed

lemma val_bound:
  fixes a b c :: nat
  assumes "a < 256" "b < 256" "c < 256"
  shows "a * 65536 + b * 256 + c < 16777216"
  using assms by linarith

lemma sextets_inj:
  fixes v w :: nat
  assumes "v < 16777216" "w < 16777216"
    and "v div 262144 mod 64 = w div 262144 mod 64"
    and "v div 4096 mod 64 = w div 4096 mod 64"
    and "v div 64 mod 64 = w div 64 mod 64"
    and "v mod 64 = w mod 64"
  shows "v = w"
  using sextets_decomp[OF assms(1)] sextets_decomp[OF assms(2)] assms(3-6) by simp

lemma group3_inj:
  assumes "base64Encode encodeURL False [a, b, c] = base64Encode encodeURL False [a', b', c']"
  shows "a = a' \<and> b = b' \<and> c = c'"
proof -
  define v where "v = (of_char a :: nat) * 65536 + of_char b * 256 + of_char c"
  define w where "w = (of_char a' :: nat) * 65536 + of_char b' * 256 + of_char c'"
  have bv: "v < 16777216" "w < 16777216"
    unfolding v_def w_def by (rule val_bound; simp)+
  have m: "x mod 64 < 64" for x :: nat by simp
  from assms have
    "encodeURL ! (v div 262144 mod 64) = encodeURL ! (w div 262144 mod 64)"
    "encodeURL ! (v div 4096 mod 64) = encodeURL ! (w div 4096 mod 64)"
    "encodeURL ! (v div 64 mod 64) = encodeURL ! (w div 64 mod 64)"
    "encodeURL ! (v mod 64) = encodeURL ! (w mod 64)"
    by (simp_all add: v_def w_def Let_def)
  then have "v div 262144 mod 64 = w div 262144 mod 64" "v div 4096 mod 64 = w div 4096 mod 64"
    "v div 64 mod 64 = w div 64 mod 64" "v mod 64 = w mod 64"
    by (auto intro: encodeURL_inj[OF m m])
  from sextets_inj[OF bv this] have vw: "v = w" .
  have "(of_char a :: nat) = of_char a'"
    using bytes_of_val(1)[of "of_char b" "of_char c" "of_char a"]
      bytes_of_val(1)[of "of_char b'" "of_char c'" "of_char a'"] vw
    by (simp add: v_def w_def)
  moreover have "(of_char b :: nat) = of_char b'"
    using bytes_of_val(2)[of "of_char b" "of_char c" "of_char a"]
      bytes_of_val(2)[of "of_char b'" "of_char c'" "of_char a'"] vw
    by (simp add: v_def w_def)
  moreover have "(of_char c :: nat) = of_char c'"
    using bytes_of_val(3)[of "of_char b" "of_char c" "of_char a"]
      bytes_of_val(3)[of "of_char b'" "of_char c'" "of_char a'"] vw
    by (simp add: v_def w_def)
  ultimately show ?thesis by simp
qed


lemma group1_inj:
  assumes "base64Encode encodeURL False [a] = base64Encode encodeURL False [a']"
  shows "a = a'"
proof -
  have "base64Encode encodeURL False [a, CHR 0x00, CHR 0x00]
      = base64Encode encodeURL False [a', CHR 0x00, CHR 0x00]"
    using assms by (simp add: Let_def)
  from group3_inj[OF this] show ?thesis by simp
qed

lemma group2_inj:
  assumes "base64Encode encodeURL False [a, b] = base64Encode encodeURL False [a', b']"
  shows "a = a' \<and> b = b'"
proof -
  have "base64Encode encodeURL False [a, b, CHR 0x00]
      = base64Encode encodeURL False [a', b', CHR 0x00]"
    using assms by (simp add: Let_def)
  from group3_inj[OF this] show ?thesis by simp
qed

lemma base64Encode_Cons3:
  "base64Encode al pad (a # b # c # rest) = base64Encode al pad [a, b, c] @ base64Encode al pad rest"
  by (simp add: Let_def)

lemma base64Encode_group_length: "length (base64Encode al pad [a, b, c]) = 4"
  by (simp add: Let_def)

lemma base64URL_inj:
  "length xs = length ys \<Longrightarrow>
     base64Encode encodeURL False xs = base64Encode encodeURL False ys \<Longrightarrow> xs = ys"
proof (induction xs arbitrary: ys rule: length_induct)
  case (1 xs)
  have shapes: "xs = [] \<or> (\<exists>a. xs = [a]) \<or> (\<exists>a b. xs = [a, b])
      \<or> (\<exists>a b c rest. xs = a # b # c # rest)"
    by (cases xs; cases "tl xs"; cases "tl (tl xs)") auto
  then consider (1) "xs = []" | (2) a where "xs = [a]" | (3) a b where "xs = [a, b]"
    | (4) a b c rest where "xs = a # b # c # rest"
    by blast
  then show ?case
  proof cases
    case 1
    with "1.prems" show ?thesis by simp
  next
    case (2 a)
    with "1.prems"(1) obtain a' where ys: "ys = [a']" by (cases ys) auto
    from group1_inj[of a a'] "1.prems"(2) 2 ys show ?thesis by simp
  next
    case (3 a b)
    with "1.prems"(1) obtain a' b' where ys: "ys = [a', b']"
      by (cases ys; cases "tl ys") auto
    from group2_inj[of a b a' b'] "1.prems"(2) 3 ys show ?thesis by simp
  next
    case (4 a b c rest)
    with "1.prems"(1) obtain a' b' c' rest' where ys: "ys = a' # b' # c' # rest'"
      and len: "length rest = length rest'"
      by (cases ys; cases "tl ys"; cases "tl (tl ys)") auto
    from "1.prems"(2) have
      "base64Encode encodeURL False [a, b, c] @ base64Encode encodeURL False rest
       = base64Encode encodeURL False [a', b', c'] @ base64Encode encodeURL False rest'"
      unfolding 4 ys base64Encode_Cons3[of _ _ a b c rest] base64Encode_Cons3[of _ _ a' b' c' rest'] .
    then have g: "base64Encode encodeURL False [a, b, c] = base64Encode encodeURL False [a', b', c']"
      and r: "base64Encode encodeURL False rest = base64Encode encodeURL False rest'"
      using base64Encode_group_length by (auto simp: append_eq_append_conv)
    have "length rest < length xs" using 4 by simp
    with "1.IH" len r have "rest = rest'" by blast
    with group3_inj[OF g] 4 ys show ?thesis by simp
  qed
qed

lemma boundaryOf_eq_iff:
  "18 \<le> length r \<Longrightarrow> 18 \<le> length r' \<Longrightarrow>
     (boundaryOf r = boundaryOf r') = (take 18 r = take 18 r')"
proof -
  assume "18 \<le> length r" "18 \<le> length r'"
  then have "length (take 18 r) = length (take 18 r')" by simp
  from base64URL_inj[OF this] show ?thesis
    by (auto simp: boundaryOf_def RawURLEncodeToString_def)
qed

text \<open>
  A boundary token consists of letters, digits, \<open>-\<close> and \<open>_\<close>, so \<^verbatim>\<open>%q\<close> writes it
  between double quotes as it is.
\<close>

lemma Quote_boundaryOf: "Quote (boundaryOf r) = [DQ] @ boundaryOf r @ [DQ]"
proof -
  have "set (RawURLEncodeToString (take 18 r)) \<subseteq> set encodeURL \<union> {CHR ''=''}"
    unfolding RawURLEncodeToString_def by (rule base64Encode_set) (simp add: encodeURL_def)
  moreover have "\<forall>c \<in> set encodeURL \<union> {CHR ''=''} \<union> set ''gogcli_''. plainPrintable c"
    by (simp add: encodeURL_def plainPrintable_def)
  ultimately have "list_all plainPrintable (boundaryOf r)"
    by (auto simp: boundaryOf_def list_all_iff)
  then show ?thesis by (rule Quote_plain)
qed

text \<open>
  C3, as the claim states it, fails: when the random source gives the same 18 bytes
  twice, the boundary of \<^verbatim>\<open>multipart/mixed\<close> and the boundary of the nested
  \<^verbatim>\<open>multipart/alternative\<close> are the same token.
\<close>

theorem equal_draws_give_equal_boundaries:
  "buildRFC822 env0 rndRepeat req4
     = Inr (headerBlock env0 rndRepeat req4
            @ mixedEntity ''gogcli_QUJDREVGR0hJSktMTU5PUFFS'' ''gogcli_QUJDREVGR0hJSktMTU5PUFFS''
                ''Plain'' ''<p>HTML</p>''
                [att0, att1\<lparr>Filename := ''a.bin'', MIMEType := ''application/octet-stream'', Data := ''xyz''\<rparr>])"
proof -
  have c: "requiredPresent req4" "headerValuesClean req4" "randomNeeded req4 \<le> length rndRepeat"
      "attachmentsReadable env0 req4"
    by code_simp+
  have e: "tapeAfterHeaders rndRepeat req4 = ''ABCDEFGHIJKLMNOPQR'' @ ''ABCDEFGHIJKLMNOPQR''"
      "Attachments req4 = [att0, att1]"
      "normalizeCRLF (Body req4) = ''Plain''" "normalizeCRLF (BodyHTML req4) = ''<p>HTML</p>''"
      "resolved env0 att0 = att0"
      "resolved env0 att1 = att1\<lparr>Filename := ''a.bin'', MIMEType := ''application/octet-stream'', Data := ''xyz''\<rparr>"
    by code_simp+
  have b: "boundaryOf ''ABCDEFGHIJKLMNOPQRABCDEFGHIJKLMNOPQR'' = ''gogcli_QUJDREVGR0hJSktMTU5PUFFS''"
      "boundaryOf ''ABCDEFGHIJKLMNOPQR'' = ''gogcli_QUJDREVGR0hJSktMTU5PUFFS''"
    by (simp_all add: boundaryOf_def RawURLEncodeToString_def encodeURL_def)
  have "messageEntity env0 (tapeAfterHeaders rndRepeat req4) req4
      = mixedEntity ''gogcli_QUJDREVGR0hJSktMTU5PUFFS'' ''gogcli_QUJDREVGR0hJSktMTU5PUFFS''
                ''Plain'' ''<p>HTML</p>''
                [att0, att1\<lparr>Filename := ''a.bin'', MIMEType := ''application/octet-stream'', Data := ''xyz''\<rparr>]"
    by (simp add: messageEntity_def e Let_def b)
  with c show ?thesis by (simp add: buildRFC822_Inr_iff)
qed

text \<open>
  C3, amended. When one message has two boundaries, the outer one is \<^verbatim>\<open>gogcli_\<close> and
  the unpadded URL-safe base64 of 18 random bytes, the inner one the same of the next 18
  random bytes, and the two tokens differ exactly when the two draws differ. The encoder
  makes no comparison of its own.
\<close>

theorem boundaries_differ_iff_draws_differ:
  assumes "buildRFC822 env rnd opts = Inr out"
    and "Attachments opts \<noteq> []" and "bothBodies opts"
  shows "out = headerBlock env rnd opts
           @ mixedEntity (boundaryOf (tapeAfterHeaders rnd opts))
               (boundaryOf (drop 18 (tapeAfterHeaders rnd opts)))
               (normalizeCRLF (Body opts)) (normalizeCRLF (BodyHTML opts))
               (map (resolved env) (Attachments opts))
         \<and> (boundaryOf (tapeAfterHeaders rnd opts) = boundaryOf (drop 18 (tapeAfterHeaders rnd opts)))
           = (take 18 (tapeAfterHeaders rnd opts) = take 18 (drop 18 (tapeAfterHeaders rnd opts)))"
proof -
  from assms(1) have out: "out = headerBlock env rnd opts
      @ messageEntity env (tapeAfterHeaders rnd opts) opts"
    and n: "randomNeeded opts \<le> length rnd"
    by (simp_all add: buildRFC822_Inr_iff)
  from n assms(2,3) have "36 \<le> length (tapeAfterHeaders rnd opts)"
    by (simp add: randomNeeded_def tapeAfterHeaders_def split: if_splits)
  then have "18 \<le> length (tapeAfterHeaders rnd opts)"
    "18 \<le> length (drop 18 (tapeAfterHeaders rnd opts))"
    by simp_all
  from boundaryOf_eq_iff[OF this] out assms(2) show ?thesis
    by (simp add: messageEntity_def)
qed

theorem boundaries_differ_iff_draws_differ_witness:
  "Attachments req4 \<noteq> [] \<and> bothBodies req4
   \<and> buildRFC822 env0 rnd0 req4
       = Inr (headerBlock env0 rnd0 req4
              @ mixedEntity (boundaryOf (tapeAfterHeaders rnd0 req4))
                  (boundaryOf (drop 18 (tapeAfterHeaders rnd0 req4)))
                  (normalizeCRLF (Body req4)) (normalizeCRLF (BodyHTML req4))
                  (map (resolved env0) (Attachments req4)))
   \<and> take 18 (tapeAfterHeaders rnd0 req4) \<noteq> take 18 (drop 18 (tapeAfterHeaders rnd0 req4))
   \<and> boundaryOf (tapeAfterHeaders rnd0 req4) \<noteq> boundaryOf (drop 18 (tapeAfterHeaders rnd0 req4))"
proof -
  have c: "requiredPresent req4" "headerValuesClean req4" "randomNeeded req4 \<le> length rnd0"
      "attachmentsReadable env0 req4"
    by code_simp+
  then obtain out where h: "buildRFC822 env0 rnd0 req4 = Inr out"
    by (simp add: buildRFC822_Inr_iff)
  have a: "Attachments req4 \<noteq> []" "bothBodies req4"
      "take 18 (tapeAfterHeaders rnd0 req4) \<noteq> take 18 (drop 18 (tapeAfterHeaders rnd0 req4))"
    by code_simp+
  from boundaries_differ_iff_draws_differ[OF h a(1,2)] h a show ?thesis by simp
qed

subsection \<open>Effects on the caller's request\<close>

lemma buildRFC822_mem_memory:
  "fst (buildRFC822_mem env rnd m r) =
     (if checkRequired (view m r) = None
      then fst (appendStr m (ccS r) (loadStr m (bccS r))) else m)"
  by (auto simp: buildRFC822_mem_def Let_def split: option.split prod.split)

lemma buildRFC822_mem_result:
  "checkRequired (view m r) = None \<Longrightarrow>
   snd (buildRFC822_mem env rnd m r) =
     encodeFrom env rnd (loadStr m (toS r) @ snd (appendStr m (ccS r) (loadStr m (bccS r))))
       (view (fst (appendStr m (ccS r) (loadStr m (bccS r)))) r)"
  by (auto simp: buildRFC822_mem_def Let_def split: option.split prod.split)

text \<open>No statement of the function writes to an array of attachment descriptors.\<close>

lemma attachments_never_written: "attArr (fst (buildRFC822_mem env rnd m r)) = attArr m"
  by (simp add: buildRFC822_mem_memory appendStr_def Let_def)

lemma memory_unchanged_without_spare_capacity:
  "cap (ccS r) < len (ccS r) + length (loadStr m (bccS r)) \<Longrightarrow>
     fst (buildRFC822_mem env rnd m r) = m"
  by (simp add: buildRFC822_mem_memory appendStr_def)

lemma appendStr_elements: "snd (appendStr m s xs) = loadStr m s @ xs"
  by (simp add: appendStr_def Let_def)

text \<open>
  When the call leaves the request as the caller reads it unchanged, its result is the
  result of \<^const>\<open>buildRFC822\<close> on the request taken by value.
\<close>

lemma buildRFC822_mem_by_value:
  assumes "view (fst (buildRFC822_mem env rnd m r)) r = view m r"
  shows "snd (buildRFC822_mem env rnd m r) = buildRFC822 env rnd (view m r)"
proof (cases "checkRequired (view m r)")
  case None
  have "loadStr m (toS r) @ snd (appendStr m (ccS r) (loadStr m (bccS r)))
      = To (view m r) @ Cc (view m r) @ Bcc (view m r)"
    by (simp add: appendStr_elements view_def)
  moreover have "view (fst (appendStr m (ccS r) (loadStr m (bccS r)))) r = view m r"
    using assms None by (simp add: buildRFC822_mem_memory)
  ultimately show ?thesis
    using buildRFC822_mem_result[OF None, of env rnd] None by (simp add: buildRFC822_def)
next
  case (Some e)
  then show ?thesis by (simp add: buildRFC822_mem_def buildRFC822_def)
qed

lemma buildRFC822_mem_unaliased:
  "cap (ccS r) < len (ccS r) + length (loadStr m (bccS r)) \<Longrightarrow>
     buildRFC822_mem env rnd m r = (m, buildRFC822 env rnd (view m r))"
  by (auto simp: buildRFC822_mem_def buildRFC822_def appendStr_def view_def Let_def
      split: option.split)

text \<open>
  C9. The claim is that the request is the same after the call as before. For the
  attachment descriptors this holds (\<open>attachments_never_written\<close>). For the address
  lists it fails when the \<open>Cc\<close> slice has spare capacity: line 56 copies \<open>To\<close> into a new
  slice but appends \<open>Bcc\<close> to the caller's \<open>Cc\<close> slice, and the appended addresses
  land in the backing array behind \<open>Cc\<close>. In the sample memory that place is the first
  \<open>To\<close> address: after the call the caller's \<open>To\<close> holds the Bcc address, and the
  message itself is addressed \<^verbatim>\<open>To: bcc@x.com\<close>.
\<close>

theorem append_to_Cc_overwrites_To:
  "view memShared reqShared = reqSharedBefore
   \<and> view (fst (buildRFC822_mem env0 rnd0 memShared reqShared)) reqShared = reqSharedAfter
   \<and> To reqSharedBefore = [''to@x.com''] \<and> To reqSharedAfter = [''bcc@x.com'']
   \<and> snd (buildRFC822_mem env0 rnd0 memShared reqShared)
       = Inr (headerBlock env0 rnd0 reqSharedAfter @ textEntity textPlain ''Hello'')
   \<and> headersBeforeSubject reqSharedAfter
       = ''From: a@b.com'' @ CRLF @ ''To: bcc@x.com'' @ CRLF @ ''Cc: cc@x.com'' @ CRLF
         @ ''Bcc: bcc@x.com'' @ CRLF"
proof -
  have c: "checkRequired (view memShared reqShared) = None" by code_simp
  have v: "view memShared reqShared = reqSharedBefore"
      "view (fst (appendStr memShared (ccS reqShared) (loadStr memShared (bccS reqShared)))) reqShared
         = reqSharedAfter"
      "loadStr memShared (toS reqShared)
         @ snd (appendStr memShared (ccS reqShared) (loadStr memShared (bccS reqShared)))
         = [''to@x.com'', ''cc@x.com'', ''bcc@x.com'']"
      "To reqSharedBefore = [''to@x.com'']" "To reqSharedAfter = [''bcc@x.com'']"
      "headersBeforeSubject reqSharedAfter
         = ''From: a@b.com'' @ CRLF @ ''To: bcc@x.com'' @ CRLF @ ''Cc: cc@x.com'' @ CRLF
           @ ''Bcc: bcc@x.com'' @ CRLF"
    by code_simp+
  have m: "view (fst (buildRFC822_mem env0 rnd0 memShared reqShared)) reqShared = reqSharedAfter"
    using c v(2) by (simp add: buildRFC822_mem_memory)
  have r: "snd (buildRFC822_mem env0 rnd0 memShared reqShared)
      = encodeFrom env0 rnd0 [''to@x.com'', ''cc@x.com'', ''bcc@x.com''] reqSharedAfter"
    using buildRFC822_mem_result[OF c, of env0 rnd0] by (simp only: v)
  have hc: "\<not> list_ex hasNewline [''to@x.com'', ''cc@x.com'', ''bcc@x.com'']"
      "TrimSpace (ReplyTo reqSharedAfter) = []" "\<not> hasNewline (Subject reqSharedAfter)"
      "\<not> suppliedMessageID reqSharedAfter" "\<not> length rnd0 < 16"
      "TrimSpace (InReplyTo reqSharedAfter) = []" "TrimSpace (References reqSharedAfter) = []"
      "List.find (\<lambda>kv. emitted kv \<and> hasNewline (snd kv)) (AdditionalHeaders reqSharedAfter) = None"
    by code_simp+
  have h: "writeHeaders env0 rnd0 [''to@x.com'', ''cc@x.com'', ''bcc@x.com''] reqSharedAfter
      = Inr (headerBlock env0 rnd0 reqSharedAfter, tapeAfterHeaders rnd0 reqSharedAfter)"
    unfolding writeHeaders_eq using hc by simp
  have bc: "\<not> bothBodies reqSharedAfter" "Attachments reqSharedAfter = []"
      "attachmentsReadable env0 reqSharedAfter"
      "normalizeCRLF (Body reqSharedAfter) = ''Hello''" "normalizeCRLF (BodyHTML reqSharedAfter) = []"
      "TrimSpace [] = []"
    by code_simp+
  have e: "messageEntity env0 (tapeAfterHeaders rnd0 reqSharedAfter) reqSharedAfter
      = textEntity textPlain ''Hello''"
    by (simp add: messageEntity_def bodyEntity_def bc)
  have "encodeFrom env0 rnd0 [''to@x.com'', ''cc@x.com'', ''bcc@x.com''] reqSharedAfter
      = Inr (headerBlock env0 rnd0 reqSharedAfter @ textEntity textPlain ''Hello'')"
    unfolding encodeFrom_def h using bc(1-3) e by (simp add: writeBody_Inr_iff)
  with r v m show ?thesis by simp
qed

end
